theory Spec2Isabelle
  imports Main "HOL-Library.Word"
begin

unbundle bit_operations_syntax

section \<open>The NOTRAN compiler (notcmp.c)\<close>

subsection \<open>Constants and data structures\<close>

definition MAX_SYMBOLS :: nat where [simp]: "MAX_SYMBOLS = 100"
definition MAX_CODE_SIZE :: nat where [simp]: "MAX_CODE_SIZE = 8192"
definition NUM_VOICES :: nat where [simp]: "NUM_VOICES = 4"
definition INACTIVE_VOICE_DURATION :: "8 word" where [simp]: "INACTIVE_VOICE_DURATION = 0xFF"
definition ACTIVE_VOICE_DURATION :: "8 word" where [simp]: "ACTIVE_VOICE_DURATION = 0"
definition MIN_PITCH :: int where [simp]: "MIN_PITCH = 1"
definition MAX_PITCH :: int where [simp]: "MAX_PITCH = 61"
definition MIN_WAVEFORM :: int where [simp]: "MIN_WAVEFORM = 1"
definition MAX_WAVEFORM :: int where [simp]: "MAX_WAVEFORM = 16"
definition MIN_TEMPO :: int where [simp]: "MIN_TEMPO = 1"
definition MAX_TEMPO :: int where [simp]: "MAX_TEMPO = 255"

definition OP_END :: "8 word" where [simp]: "OP_END = 0x00"
definition OP_TEMPO :: "8 word" where [simp]: "OP_TEMPO = 0x10"
definition OP_JSR :: "8 word" where [simp]: "OP_JSR = 0x20"
definition OP_RTS :: "8 word" where [simp]: "OP_RTS = 0x30"
definition OP_JMP :: "8 word" where [simp]: "OP_JMP = 0x40"
definition OP_SET_VOICES :: "8 word" where [simp]: "OP_SET_VOICES = 0x50"
definition OP_LONG_NOTE :: "8 word" where [simp]: "OP_LONG_NOTE = 0x60"
definition OP_REST_MASK :: "8 word" where [simp]: "OP_REST_MASK = 0x80"
definition OP_VOICE_DEACTIVATE :: "8 word" where [simp]: "OP_VOICE_DEACTIVATE = 0x80"
definition OP_VOICE_ACTIVATE :: "8 word" where [simp]: "OP_VOICE_ACTIVATE = 0x90"

datatype error_code_t =
    ERR_ARG_OUT_OF_RANGE
  | ERR_UNDEFINED_IDENTIFIER
  | ERR_DUPLICATE_IDENTIFIER
  | ERR_SYMBOL_TABLE_OVERFLOW
  | ERR_CODE_OVERFLOW
  | ERR_INCOMPREHENSIBLE_SPEC
  | ERR_VOICE_MISMATCH
  | ERR_PITCH_OUT_OF_RANGE
  | ERR_ILLEGAL_DURATION
  | ERR_EXEC_CTRL_IN_EVENT
  | ERR_IDENTIFIER_IN_EVENT
  | ERR_NESTED_SUB_ESB
  | ERR_ESB_WITHOUT_SUB
  | ERR_HANGING_SUB
  | ERR_NO_VOICES_ACTIVE

text \<open>
  Two ways in which the C program leaves the normal flow of control:
  \<open>exit(EXIT_FAILURE)\<close> in \<open>process_note_event\<close>, and an access outside an
  array (undefined behaviour in C), which the model makes an explicit outcome.
\<close>

datatype abort = Exit_failure | Out_of_bounds

text \<open>
  \<open>note_spec_t\<close>; the fields \<open>voice\<close>, \<open>pitch\<close> and \<open>octave\<close> carry the prefix
  \<open>n_\<close> because \<open>voice_state_t\<close> has fields of the same names.
\<close>

record note_spec_t =
  n_voice :: "8 word"
  n_pitch :: "8 word"
  n_octave :: "8 word"
  duration_code :: "8 word"
  duration_time :: "8 word"

record voice_state_t =
  waveform :: "8 word"
  duration :: "8 word"
  pitch :: "8 word"
  octave :: "8 word"
  use_absolute :: bool

text \<open>
  \<open>compiler_t\<close>. The files and the fields that only serve the listing are left out.
  \<open>input\<close> is the C string that \<open>input_ptr\<close> points at (the rest of the current line,
  without its terminating NUL); \<open>code\<close> holds the \<open>code_size\<close> bytes emitted so far, so
  \<open>code_size\<close> is its length; \<open>symbols\<close> holds the \<open>symbol_count\<close> entries in
  insertion order; \<open>diagnostics\<close> is the sequence of error codes written to stderr by
  \<open>report_error\<close>.
\<close>

record compiler_t =
  base_address :: "16 word"
  input :: string
  line_number :: int
  symbols :: "(8 word \<times> 16 word) list"
  code :: "8 word list"
  event_building :: bool
  voice_ptr :: nat
  voices :: "voice_state_t list"
  sub_address :: "16 word"
  end_flag :: bool
  error_flag :: bool
  diagnostics :: "error_code_t list"

definition code_size :: "compiler_t \<Rightarrow> nat" where
  "code_size c = length (code c)"

definition init_compiler :: "16 word \<Rightarrow> compiler_t" where
  "init_compiler base_addr =
     \<lparr> base_address = base_addr, input = [], line_number = 0, symbols = [], code = [],
       event_building = False, voice_ptr = 0,
       voices = replicate NUM_VOICES
         \<lparr> waveform = 0, duration = INACTIVE_VOICE_DURATION, pitch = 0, octave = 0,
           use_absolute = True \<rparr>,
       sub_address = 0, end_flag = False, error_flag = False, diagnostics = [] \<rparr>"

subsection \<open>Characters and the input pointer\<close>

definition NUL :: char where [simp]: "NUL = CHR 0x00"

text \<open>\<open>*c->input_ptr\<close>: the terminating NUL is read at the end of the line.\<close>

definition cur :: "compiler_t \<Rightarrow> char" where
  "cur c = (case input c of [] \<Rightarrow> NUL | ch # _ \<Rightarrow> ch)"

text \<open>\<open>c->input_ptr++\<close>\<close>

definition advance :: "compiler_t \<Rightarrow> compiler_t" where
  "advance c = c\<lparr>input := tl (input c)\<rparr>"

definition isdigit :: "char \<Rightarrow> bool" where
  "isdigit ch = (48 \<le> (of_char ch :: nat) \<and> (of_char ch :: nat) \<le> 57)"

definition toupper :: "char \<Rightarrow> char" where
  "toupper ch =
     (case map_of (zip ''abcdefghijklmnopqrstuvwxyz'' ''ABCDEFGHIJKLMNOPQRSTUVWXYZ'') ch of
        None \<Rightarrow> ch | Some u \<Rightarrow> u)"

definition is_line_terminator :: "char \<Rightarrow> bool" where
  "is_line_terminator ch = (ch = CHR 0x0D \<or> ch = CHR 0x0A)"

definition skip_whitespace :: "compiler_t \<Rightarrow> compiler_t" where
  "skip_whitespace c =
     c\<lparr>input := dropWhile (\<lambda>ch. ch = CHR '' '' \<or> ch = CHR 0x09) (input c)\<rparr>"

definition is_valid_voice :: "int \<Rightarrow> bool" where
  "is_valid_voice voice_num = (voice_num \<ge> 1 \<and> voice_num \<le> int NUM_VOICES)"

definition is_valid_waveform :: "int \<Rightarrow> bool" where
  "is_valid_waveform w = (w \<ge> MIN_WAVEFORM \<and> w \<le> MAX_WAVEFORM)"

definition is_valid_pitch :: "int \<Rightarrow> bool" where
  "is_valid_pitch p = (p \<ge> MIN_PITCH \<and> p \<le> MAX_PITCH)"

subsection \<open>Errors, symbols, code emission\<close>

definition report_error :: "compiler_t \<Rightarrow> error_code_t \<Rightarrow> compiler_t" where
  "report_error c e = c\<lparr>error_flag := True, diagnostics := diagnostics c @ [e]\<rparr>"

text \<open>
  The digit loop of \<open>parse_numeric_arg\<close>. Once \<open>overflow\<close> is set the value of
  \<open>val\<close> is never used, so \<open>val\<close> is kept as an unbounded integer.
\<close>

fun parse_digits :: "int \<Rightarrow> bool \<Rightarrow> string \<Rightarrow> int \<times> bool \<times> string" where
  "parse_digits val overflow [] = (val, overflow, [])"
| "parse_digits val overflow (ch # s) =
     (if isdigit ch
      then parse_digits (val * 10 + (int (of_char ch) - 48))
             (overflow \<or> val * 10 + (int (of_char ch) - 48) > 255) s
      else (val, overflow, ch # s))"

definition parse_numeric_arg :: "compiler_t \<Rightarrow> int \<times> compiler_t" where
  "parse_numeric_arg c0 =
     (let c = skip_whitespace c0 in
      if \<not> isdigit (cur c) then (0, report_error c ERR_INCOMPREHENSIBLE_SPEC)
      else case parse_digits 0 False (input c) of
             (val, overflow, rest) \<Rightarrow>
               if overflow then (0, report_error (c\<lparr>input := rest\<rparr>) ERR_ARG_OUT_OF_RANGE)
               else (val, c\<lparr>input := rest\<rparr>))"

definition add_symbol :: "compiler_t \<Rightarrow> 8 word \<Rightarrow> 16 word \<Rightarrow> compiler_t" where
  "add_symbol c ident addr =
     (if length (symbols c) \<ge> MAX_SYMBOLS then report_error c ERR_SYMBOL_TABLE_OVERFLOW
      else c\<lparr>symbols := symbols c @ [(ident, addr)]\<rparr>)"

text \<open>The first entry with the identifier, as the loop of \<open>find_symbol\<close> finds it.\<close>

definition find_symbol :: "compiler_t \<Rightarrow> 8 word \<Rightarrow> 16 word option" where
  "find_symbol c ident = map_of (symbols c) ident"

definition emit_byte :: "compiler_t \<Rightarrow> 8 word \<Rightarrow> compiler_t" where
  "emit_byte c b =
     (if code_size c \<ge> MAX_CODE_SIZE then report_error c ERR_CODE_OVERFLOW
      else c\<lparr>code := code c @ [b]\<rparr>)"

definition emit_word :: "compiler_t \<Rightarrow> 16 word \<Rightarrow> compiler_t" where
  "emit_word c w =
     emit_byte (emit_byte c (ucast (w AND 0xFF))) (ucast (drop_bit 8 w AND 0xFF))"

subsection \<open>Identifier parsing\<close>

definition parse_identifier :: "compiler_t \<Rightarrow> compiler_t" where
  "parse_identifier c =
     (if event_building c then report_error c ERR_IDENTIFIER_IN_EVENT
      else case parse_numeric_arg c of
        (ident, c1) \<Rightarrow>
          if ident = 0 then report_error c1 ERR_INCOMPREHENSIBLE_SPEC
          else if find_symbol c1 (word_of_int ident) \<noteq> None
          then report_error c1 ERR_DUPLICATE_IDENTIFIER
          else add_symbol c1 (word_of_int ident)
                 (base_address c1 + word_of_nat (code_size c1)))"

subsection \<open>Note parsing\<close>

definition pitch_table :: "8 word list" where
  "pitch_table = [9,10,11, 11,12,1, 12,1,2, 2,3,4, 4,5,6, 5,6,7, 7,8,9]"

text \<open>
  \<open>parse_note_pitch\<close>: \<open>note_value - 2\<close> lies in 0..20, inside the table of 21 entries.
\<close>

definition parse_note_pitch :: "compiler_t \<Rightarrow> 8 word \<times> compiler_t" where
  "parse_note_pitch c =
     (let note_letter = (of_char (cur c) :: nat) in
      if note_letter < 65 \<or> note_letter > 71 then (0, report_error c ERR_INCOMPREHENSIBLE_SPEC)
      else
        let note_value = (note_letter - 65 + 1) * 3;
            c1 = advance c
        in if cur c1 = CHR ''#'' then (pitch_table ! (note_value + 1 - 2), advance c1)
           else if cur c1 = CHR ''@'' then (pitch_table ! (note_value - 1 - 2), advance c1)
           else (pitch_table ! (note_value - 2), c1))"

definition duration_letters :: string where
  "duration_letters = ''WHQEST''"

definition code_table :: "8 word list" where
  "code_table = [0,1,0, 2,3,5, 4,6,8, 7,9,11, 10,12,14, 13,15,0]"

definition time_table :: "8 word list" where
  "time_table = [192,144,96, 72,64,48, 36,32,24, 18,16,12, 9,8,6]"

text \<open>
  \<open>strchr(s, ch) - s\<close>: the index of the first occurrence of \<open>ch\<close>; as in C, the
  terminating NUL of \<open>s\<close> counts as part of the string, so NUL is found at
  index \<open>strlen(s)\<close>.
\<close>

fun strchr :: "string \<Rightarrow> char \<Rightarrow> nat option" where
  "strchr [] ch = (if ch = NUL then Some 0 else None)"
| "strchr (x # s) ch = (if x = ch then Some 0 else map_option Suc (strchr s ch))"

text \<open>
  \<open>parse_duration\<close> returns \<open>None\<close> for \<open>false\<close> and the pair
  \<open>(duration_code, duration_time)\<close> for \<open>true\<close>. At the end of the line \<open>strchr\<close>
  matches the NUL, \<open>dur_idx\<close> becomes 18, 19 or 20 whatever byte follows the NUL,
  and \<open>code_table[dur_idx]\<close> reads past the 18 entries of the table.
\<close>

definition parse_duration ::
    "compiler_t \<Rightarrow> abort + (8 word \<times> 8 word) option \<times> compiler_t" where
  "parse_duration c =
     (case strchr duration_letters (cur c) of
        None \<Rightarrow> Inr (None, report_error c ERR_ILLEGAL_DURATION)
      | Some dur_pos \<Rightarrow>
          let c1 = advance c;
              dur_idx = (if cur c1 = CHR ''.'' then dur_pos * 3 + 1 - 1
                         else if cur c1 = CHR ''3'' then dur_pos * 3 + 1 + 1
                         else dur_pos * 3 + 1);
              c2 = (if cur c1 = CHR ''.'' \<or> cur c1 = CHR ''3'' then advance c1 else c1)
          in if dur_idx \<ge> length code_table then Inl Out_of_bounds
             else if code_table ! dur_idx = 0
             then Inr (None, report_error c2 ERR_ILLEGAL_DURATION)
             else Inr (Some (code_table ! dur_idx,
                             time_table ! (unat (code_table ! dur_idx) - 1)), c2))"

subsection \<open>Voice state management\<close>

definition upd_voice ::
    "compiler_t \<Rightarrow> nat \<Rightarrow> (voice_state_t \<Rightarrow> voice_state_t) \<Rightarrow> compiler_t" where
  "upd_voice c i f = c\<lparr>voices := (voices c)[i := f (voices c ! i)]\<rparr>"

definition activate_voice :: "compiler_t \<Rightarrow> nat \<Rightarrow> compiler_t" where
  "activate_voice c voice_idx = upd_voice c voice_idx (\<lambda>v. v\<lparr>duration := ACTIVE_VOICE_DURATION\<rparr>)"

definition deactivate_voice :: "compiler_t \<Rightarrow> nat \<Rightarrow> compiler_t" where
  "deactivate_voice c voice_idx =
     upd_voice c voice_idx (\<lambda>v. v\<lparr>duration := INACTIVE_VOICE_DURATION\<rparr>)"

text \<open>The array \<open>voices\<close> has \<open>NUM_VOICES\<close> entries; the loops below visit all of them.\<close>

definition any_voice_active :: "compiler_t \<Rightarrow> bool" where
  "any_voice_active c = list_ex (\<lambda>v. duration v \<noteq> INACTIVE_VOICE_DURATION) (voices c)"

definition find_next_voice_needing_note :: "compiler_t \<Rightarrow> nat \<Rightarrow> nat" where
  "find_next_voice_needing_note c start_idx =
     (case List.find (\<lambda>i. duration (voices c ! i) = 0) [start_idx ..< NUM_VOICES] of
        None \<Rightarrow> NUM_VOICES
      | Some i \<Rightarrow> i)"

definition calculate_min_voice_duration :: "compiler_t \<Rightarrow> 8 word" where
  "calculate_min_voice_duration c =
     foldl (\<lambda>min_duration v.
              if duration v \<noteq> INACTIVE_VOICE_DURATION \<and> duration v < min_duration
              then duration v else min_duration)
           INACTIVE_VOICE_DURATION (voices c)"

definition subtract_duration_from_voices :: "compiler_t \<Rightarrow> 8 word \<Rightarrow> compiler_t" where
  "subtract_duration_from_voices c d =
     c\<lparr>voices := map (\<lambda>v. if duration v \<noteq> INACTIVE_VOICE_DURATION
                            then v\<lparr>duration := duration v - d\<rparr> else v) (voices c)\<rparr>"

definition complete_event :: "compiler_t \<Rightarrow> compiler_t" where
  "complete_event c =
     (subtract_duration_from_voices c (calculate_min_voice_duration c))
       \<lparr>event_building := False\<rparr>"

subsection \<open>Note event processing\<close>

definition emit_rest :: "compiler_t \<Rightarrow> 8 word \<Rightarrow> compiler_t" where
  "emit_rest c dc = emit_byte c (OP_REST_MASK OR dc)"

text \<open>
  The arguments of \<open>emit_byte\<close> are computed in \<open>int\<close> and converted to
  \<open>uint8_t\<close> by the call.
\<close>

definition emit_short_note :: "compiler_t \<Rightarrow> int \<Rightarrow> 8 word \<Rightarrow> compiler_t" where
  "emit_short_note c pitch_diff dc =
     emit_byte c (word_of_int (push_bit 4 (pitch_diff AND 0x0F) OR uint dc))"

definition emit_long_note :: "compiler_t \<Rightarrow> int \<Rightarrow> 8 word \<Rightarrow> 8 word \<Rightarrow> compiler_t" where
  "emit_long_note c p wform dc =
     emit_byte (emit_byte (emit_byte c OP_LONG_NOTE) (word_of_int (p * 2)))
       (word_of_int (push_bit 4 (uint wform) OR uint dc))"

definition should_use_short_encoding :: "compiler_t \<Rightarrow> nat \<Rightarrow> int \<Rightarrow> bool" where
  "should_use_short_encoding c voice_idx new_pitch =
     (if use_absolute (voices c ! voice_idx) \<or> pitch (voices c ! voice_idx) = 0 then False
      else new_pitch - uint (pitch (voices c ! voice_idx)) \<ge> -7
           \<and> new_pitch - uint (pitch (voices c ! voice_idx)) \<le> 7)"

text \<open>
  The branch of \<open>process_note_event\<close> for a pitched note (the \<open>else\<close> of
  \<open>if (note->pitch == 0)\<close>). \<open>resolve_octave\<close> is the value of the local
  \<open>octave\<close> and \<open>resolve_pitch\<close> the value of \<open>absolute_pitch\<close> when the
  encoding is chosen.
\<close>

definition resolve_octave :: "compiler_t \<Rightarrow> nat \<Rightarrow> note_spec_t \<Rightarrow> 8 word" where
  "resolve_octave c voice_idx note =
     (if n_octave note = 0
      then (if octave (voices c ! voice_idx) = 0 then 4 else octave (voices c ! voice_idx))
      else n_octave note)"

definition resolve_pitch :: "compiler_t \<Rightarrow> nat \<Rightarrow> note_spec_t \<Rightarrow> int" where
  "resolve_pitch c voice_idx note =
     (if is_valid_pitch (uint (resolve_octave c voice_idx note) * 12 + uint (n_pitch note) - 12)
      then uint (resolve_octave c voice_idx note) * 12 + uint (n_pitch note) - 12
      else MAX_PITCH)"

definition process_pitched_note :: "compiler_t \<Rightarrow> nat \<Rightarrow> note_spec_t \<Rightarrow> compiler_t" where
  "process_pitched_note c voice_idx note =
     (let c1 = (if n_octave note = 0 \<and> octave (voices c ! voice_idx) = 0
                then report_error c ERR_PITCH_OUT_OF_RANGE else c);
          c2 = upd_voice c1 voice_idx (\<lambda>v. v\<lparr>octave := resolve_octave c voice_idx note\<rparr>);
          c3 = (if is_valid_pitch
                     (uint (resolve_octave c voice_idx note) * 12 + uint (n_pitch note) - 12)
                then c2 else report_error c2 ERR_PITCH_OUT_OF_RANGE);
          absolute_pitch = resolve_pitch c voice_idx note;
          c4 = (if should_use_short_encoding c3 voice_idx absolute_pitch
                then emit_short_note c3 (absolute_pitch - uint (pitch (voices c3 ! voice_idx)))
                       (duration_code note)
                else emit_long_note c3 absolute_pitch (waveform (voices c3 ! voice_idx))
                       (duration_code note))
      in upd_voice c4 voice_idx (\<lambda>v. v\<lparr>pitch := word_of_int absolute_pitch\<rparr>))"

definition process_note_event :: "compiler_t \<Rightarrow> note_spec_t \<Rightarrow> abort + compiler_t" where
  "process_note_event c0 note =
     (if \<not> event_building c0 \<and> \<not> any_voice_active c0 then Inl Exit_failure
      else
        let c = (if event_building c0 then c0
                 else c0\<lparr>voice_ptr := 0, event_building := True\<rparr>);
            voice_idx = find_next_voice_needing_note c (voice_ptr c)
        in if voice_idx \<ge> NUM_VOICES then Inr (report_error c ERR_NO_VOICES_ACTIVE)
           else
             let c1 = (if n_voice note \<noteq> 0 \<and> int voice_idx \<noteq> uint (n_voice note) - 1
                       then report_error c ERR_VOICE_MISMATCH else c);
                 c2 = (if n_pitch note = 0 then emit_rest c1 (duration_code note)
                       else process_pitched_note c1 voice_idx note);
                 c3 = upd_voice c2 voice_idx
                        (\<lambda>v. v\<lparr>duration := duration_time note, use_absolute := False\<rparr>)
             in if find_next_voice_needing_note c3 (voice_idx + 1) \<ge> NUM_VOICES
                then Inr (complete_event c3)
                else Inr (c3\<lparr>voice_ptr := voice_idx + 1\<rparr>))"

text \<open>
  \<open>parse_note\<close> from the duration onwards: \<open>parse_duration\<close>, the check of the
  terminating character, and the call of \<open>process_note_event\<close>.
\<close>

definition parse_note_duration ::
    "compiler_t \<Rightarrow> 8 word \<Rightarrow> 8 word \<Rightarrow> 8 word \<Rightarrow> abort + compiler_t" where
  "parse_note_duration c v p oct =
     (case parse_duration c of
        Inl a \<Rightarrow> Inl a
      | Inr (None, c1) \<Rightarrow> Inr c1
      | Inr (Some (dc, dt), c1) \<Rightarrow>
          if cur c1 \<noteq> CHR '' '' \<and> cur c1 \<noteq> CHR '';'' \<and> cur c1 \<noteq> NUL
             \<and> \<not> is_line_terminator (cur c1)
          then Inr (report_error c1 ERR_INCOMPREHENSIBLE_SPEC)
          else process_note_event c1
                 \<lparr>n_voice = v, n_pitch = p, n_octave = oct,
                  duration_code = dc, duration_time = dt\<rparr>)"

definition parse_note :: "compiler_t \<Rightarrow> abort + compiler_t" where
  "parse_note c0 =
     (let has_voice = (49 \<le> (of_char (cur c0) :: nat) \<and> (of_char (cur c0) :: nat) \<le> 48 + NUM_VOICES);
          v = (if has_voice then word_of_nat (of_char (cur c0) - 48) else 0);
          c = (if has_voice then advance c0 else c0)
      in if cur c = CHR ''R'' then parse_note_duration (advance c) v 0 0
         else case parse_note_pitch c of
           (p, c1) \<Rightarrow>
             if p = 0 then Inr c1
             else if 49 \<le> (of_char (cur c1) :: nat) \<and> (of_char (cur c1) :: nat) \<le> 54
             then parse_note_duration (advance c1) v p (word_of_nat (of_char (cur c1) - 48))
             else parse_note_duration c1 v p 0)"

subsection \<open>Keyword handlers\<close>

definition check_event_conflict :: "compiler_t \<Rightarrow> compiler_t" where
  "check_event_conflict c =
     (if event_building c
      then (report_error c ERR_EXEC_CTRL_IN_EVENT)\<lparr>event_building := False\<rparr>
      else c)"

definition handle_nvc :: "compiler_t \<Rightarrow> compiler_t" where
  "handle_nvc c =
     (case parse_numeric_arg c of
        (num_voices, c1) \<Rightarrow>
          if \<not> is_valid_voice num_voices then report_error c1 ERR_ARG_OUT_OF_RANGE
          else emit_byte (emit_byte (check_event_conflict c1) OP_SET_VOICES)
                 (word_of_int num_voices))"

text \<open>
  One pass through the body of the \<open>do ... while\<close> loop of \<open>handle_voice_control\<close>,
  up to the loop condition. The \<open>continue\<close> of the error branch jumps to the loop
  condition as well, after that branch has consumed a comma of its own.
\<close>

definition voice_control_step :: "compiler_t \<Rightarrow> bool \<Rightarrow> compiler_t" where
  "voice_control_step c act =
     (case parse_numeric_arg (skip_whitespace c) of
        (voice_num, c1) \<Rightarrow>
          if \<not> is_valid_voice voice_num
          then (let c2 = skip_whitespace (report_error c1 ERR_ARG_OUT_OF_RANGE)
                in if cur c2 = CHR '','' then advance c2 else c2)
          else
            let c2 = emit_byte
                       (emit_byte (check_event_conflict c1)
                          (if act then OP_VOICE_ACTIVATE else OP_VOICE_DEACTIVATE))
                       (word_of_int (voice_num - 1));
                c3 = (if act then activate_voice c2 (nat (voice_num - 1))
                      else deactivate_voice c2 (nat (voice_num - 1)))
            in skip_whitespace c3)"

function handle_voice_control :: "compiler_t \<Rightarrow> bool \<Rightarrow> compiler_t" where
  "handle_voice_control c act =
     (if cur (voice_control_step c act) = CHR '',''
      then handle_voice_control (advance (voice_control_step c act)) act
      else voice_control_step c act)"
  by pat_completeness auto
termination
proof (relation "measure (\<lambda>(c, act). length (input c))")
  show "wf (measure (\<lambda>(c, act). length (input c)))"
    by simp
next
  fix c :: compiler_t and act :: bool
  assume comma: "cur (voice_control_step c act) = CHR '',''"
  have digits: "length (snd (snd (parse_digits v ov s))) \<le> length s" for v ov s
    by (induction s arbitrary: v ov) (auto simp: le_SucI)
  have skip: "length (input (skip_whitespace d)) \<le> length (input d)" for d
    by (simp add: skip_whitespace_def length_dropWhile_le)
  have num: "length (input (snd (parse_numeric_arg d))) \<le> length (input d)" for d
    using digits [of 0 False "input (skip_whitespace d)"] skip [of d]
    by (auto simp: parse_numeric_arg_def Let_def report_error_def split: prod.splits)
  have emit: "input (emit_byte d b) = input d" for d b
    by (simp add: emit_byte_def report_error_def)
  have chk: "input (check_event_conflict d) = input d" for d
    by (simp add: check_event_conflict_def report_error_def)
  have rep: "input (report_error d e) = input d" for d e
    by (simp add: report_error_def)
  have adv: "length (input (advance d)) \<le> length (input d)" for d
    by (simp add: advance_def)
  have upd: "input (upd_voice d i f) = input d" for d i f
    by (simp add: upd_voice_def)
  obtain n c1 where p: "parse_numeric_arg (skip_whitespace c) = (n, c1)"
    by (cases "parse_numeric_arg (skip_whitespace c)")
  have l1: "length (input c1) \<le> length (input c)"
    using num [of "skip_whitespace c"] skip [of c] p by simp
  have step: "length (input (voice_control_step c act)) \<le> length (input c)"
  proof (cases "is_valid_voice n")
    case False
    have "length (input (skip_whitespace (report_error c1 ERR_ARG_OUT_OF_RANGE)))
            \<le> length (input c1)"
      using skip [of "report_error c1 ERR_ARG_OUT_OF_RANGE"] by (simp add: rep)
    moreover have "length (input (advance (skip_whitespace
                      (report_error c1 ERR_ARG_OUT_OF_RANGE))))
            \<le> length (input (skip_whitespace (report_error c1 ERR_ARG_OUT_OF_RANGE)))"
      by (rule adv)
    ultimately show ?thesis
      using False l1 p by (simp add: voice_control_step_def Let_def)
  next
    case True
    have "length (input (skip_whitespace d)) \<le> length (input c)"
      if "input d = input c1" for d
      using skip [of d] l1 that by simp
    then show ?thesis
      using True p
      by (simp add: voice_control_step_def Let_def activate_voice_def deactivate_voice_def
            upd emit chk)
  qed
  from comma have "input (voice_control_step c act) \<noteq> []"
    by (auto simp: cur_def)
  with step show "((advance (voice_control_step c act), act), (c, act))
                    \<in> measure (\<lambda>(c, act). length (input c))"
    by (cases "input (voice_control_step c act)") (auto simp: advance_def)
qed

definition handle_act :: "compiler_t \<Rightarrow> compiler_t" where
  "handle_act c = handle_voice_control c True"

definition handle_dct :: "compiler_t \<Rightarrow> compiler_t" where
  "handle_dct c = handle_voice_control c False"

definition handle_wav :: "compiler_t \<Rightarrow> compiler_t" where
  "handle_wav c =
     (case parse_numeric_arg (skip_whitespace c) of
        (wform, c1) \<Rightarrow>
          if \<not> is_valid_waveform wform then report_error c1 ERR_ARG_OUT_OF_RANGE
          else if cur (skip_whitespace c1) \<noteq> CHR '',''
          then report_error (skip_whitespace c1) ERR_INCOMPREHENSIBLE_SPEC
          else case parse_numeric_arg (skip_whitespace (advance (skip_whitespace c1))) of
            (voice_num, c2) \<Rightarrow>
              if \<not> is_valid_voice voice_num then report_error c2 ERR_ARG_OUT_OF_RANGE
              else
                let c3 = skip_whitespace c2 in
                if cur c3 \<noteq> CHR '';'' \<and> cur c3 \<noteq> NUL \<and> \<not> is_line_terminator (cur c3)
                   \<and> cur c3 \<noteq> CHR '' ''
                then (report_error c3 ERR_INCOMPREHENSIBLE_SPEC)
                       \<lparr>input := dropWhile (\<lambda>ch. ch \<noteq> CHR '';'' \<and> \<not> is_line_terminator ch)
                                  (input c3)\<rparr>
                else upd_voice c3 (nat (voice_num - 1))
                       (\<lambda>v. v\<lparr>use_absolute := True, waveform := word_of_int (wform - 1)\<rparr>))"

definition handle_tpo :: "compiler_t \<Rightarrow> compiler_t" where
  "handle_tpo c =
     (case parse_numeric_arg (skip_whitespace c) of
        (tpo, c1) \<Rightarrow>
          if tpo < MIN_TEMPO \<or> tpo > MAX_TEMPO then report_error c1 ERR_ARG_OUT_OF_RANGE
          else emit_byte (emit_byte (check_event_conflict c1) OP_TEMPO) (word_of_int tpo))"

definition handle_abs :: "compiler_t \<Rightarrow> compiler_t" where
  "handle_abs c = c\<lparr>voices := map (\<lambda>v. v\<lparr>use_absolute := True\<rparr>) (voices c)\<rparr>"

definition handle_jump :: "compiler_t \<Rightarrow> 8 word \<Rightarrow> compiler_t" where
  "handle_jump c opcode =
     (case parse_numeric_arg (skip_whitespace c) of
        (target_id, c1) \<Rightarrow>
          if target_id < 1 \<or> target_id > 255 then report_error c1 ERR_ARG_OUT_OF_RANGE
          else (case find_symbol c1 (word_of_int target_id) of
                  None \<Rightarrow> check_event_conflict (report_error c1 ERR_UNDEFINED_IDENTIFIER)
                | Some target_addr \<Rightarrow>
                    emit_word (emit_byte (check_event_conflict c1) opcode)
                      (target_addr - base_address c1)))"

definition handle_jmp :: "compiler_t \<Rightarrow> compiler_t" where
  "handle_jmp c = handle_jump c OP_JMP"

definition handle_jsr :: "compiler_t \<Rightarrow> compiler_t" where
  "handle_jsr c = handle_jump c OP_JSR"

definition handle_rts :: "compiler_t \<Rightarrow> compiler_t" where
  "handle_rts c = emit_byte (check_event_conflict c) OP_RTS"

definition handle_sub :: "compiler_t \<Rightarrow> compiler_t" where
  "handle_sub c =
     (if sub_address c \<noteq> 0 then check_event_conflict (report_error c ERR_NESTED_SUB_ESB)
      else
        let c1 = emit_byte (check_event_conflict c) OP_JMP;
            c2 = c1\<lparr>sub_address := word_of_nat (code_size c1)\<rparr>
        in emit_word c2 0x0000)"

text \<open>
  \<open>c->code[i] = b\<close>. A store at or beyond \<open>MAX_CODE_SIZE\<close> is outside the array.
  A store inside the array but at or beyond \<open>code_size\<close> changes a byte that no
  function reads before \<open>emit_byte\<close> has overwritten it, so it leaves the list of
  emitted bytes as it is.
\<close>

definition store_code :: "compiler_t \<Rightarrow> nat \<Rightarrow> 8 word \<Rightarrow> abort + compiler_t" where
  "store_code c i b =
     (if i \<ge> MAX_CODE_SIZE then Inl Out_of_bounds
      else if i < code_size c then Inr (c\<lparr>code := (code c)[i := b]\<rparr>)
      else Inr c)"

definition handle_esb :: "compiler_t \<Rightarrow> abort + compiler_t" where
  "handle_esb c =
     (if sub_address c = 0 then Inr (check_event_conflict (report_error c ERR_ESB_WITHOUT_SUB))
      else
        let c1 = check_event_conflict c;
            current_addr = (word_of_nat (code_size c1) + base_address c1 :: 16 word);
            relative_addr = current_addr - base_address c1
        in case store_code c1 (unat (sub_address c1)) (ucast (relative_addr AND 0xFF)) of
             Inl a \<Rightarrow> Inl a
           | Inr c2 \<Rightarrow>
               (case store_code c2 (unat (sub_address c2) + 1)
                       (ucast (drop_bit 8 relative_addr AND 0xFF)) of
                  Inl a \<Rightarrow> Inl a
                | Inr c3 \<Rightarrow> Inr (c3\<lparr>sub_address := 0\<rparr>)))"

definition handle_end :: "compiler_t \<Rightarrow> compiler_t" where
  "handle_end c =
     (let c1 = (emit_byte c OP_END)\<lparr>end_flag := True\<rparr>
      in if sub_address c1 \<noteq> 0 then report_error c1 ERR_HANGING_SUB else c1)"

text \<open>
  \<open>parse_keyword\<close>: the result \<open>None\<close> is \<open>false\<close> (no keyword, the input pointer
  stays behind the skipped whitespace); otherwise the state after the handler.
\<close>

definition parse_keyword :: "compiler_t \<Rightarrow> (abort + compiler_t) option \<times> compiler_t" where
  "parse_keyword c0 =
     (let c = skip_whitespace c0 in
      case input c of
        k1 # k2 # k3 # rest \<Rightarrow>
          (let kw = [k1, k2, k3]; c' = c\<lparr>input := rest\<rparr> in
           if kw = ''NVC'' then (Some (Inr (handle_nvc c')), c)
           else if kw = ''ACT'' then (Some (Inr (handle_act c')), c)
           else if kw = ''DCT'' then (Some (Inr (handle_dct c')), c)
           else if kw = ''WAV'' then (Some (Inr (handle_wav c')), c)
           else if kw = ''TPO'' then (Some (Inr (handle_tpo c')), c)
           else if kw = ''ABS'' then (Some (Inr (handle_abs c')), c)
           else if kw = ''JMP'' then (Some (Inr (handle_jmp c')), c)
           else if kw = ''JSR'' then (Some (Inr (handle_jsr c')), c)
           else if kw = ''RTS'' then (Some (Inr (handle_rts c')), c)
           else if kw = ''SUB'' then (Some (Inr (handle_sub c')), c)
           else if kw = ''ESB'' then (Some (handle_esb c'), c)
           else if kw = ''END'' then (Some (Inr (handle_end c')), c)
           else (None, c))
      | _ \<Rightarrow> (None, c))"

subsection \<open>Lines and files\<close>

text \<open>
  One specification of a line: \<open>if (!parse_keyword(c)) parse_note(c);\<close> followed by
  \<open>skip_whitespace\<close> and the optional semicolon.
\<close>

definition process_spec :: "compiler_t \<Rightarrow> abort + compiler_t" where
  "process_spec c =
     (case (case parse_keyword c of
              (Some r, _) \<Rightarrow> r
            | (None, c1) \<Rightarrow> parse_note c1) of
        Inl a \<Rightarrow> Inl a
      | Inr c2 \<Rightarrow>
          Inr (if cur (skip_whitespace c2) = CHR '';'' then advance (skip_whitespace c2)
               else skip_whitespace c2))"

text \<open>
  The \<open>while\<close> loop of \<open>process_line\<close>. A specification that is rejected without
  consuming a character is parsed again, so the loop need not end: the result
  \<open>None\<close> stands for a loop that runs forever.
\<close>

partial_function (option) process_specs :: "compiler_t \<Rightarrow> (abort + compiler_t) option" where
  "process_specs c =
     (if cur c \<noteq> NUL \<and> \<not> is_line_terminator (cur c)
      then if cur (skip_whitespace c) = NUL \<or> is_line_terminator (cur (skip_whitespace c))
           then Some (Inr (skip_whitespace c))
           else case process_spec (skip_whitespace c) of
                  Inl a \<Rightarrow> Some (Inl a)
                | Inr c1 \<Rightarrow> process_specs c1
      else Some (Inr c))"

declare process_specs.simps [code]

definition is_comment_line :: "string \<Rightarrow> bool" where
  "is_comment_line line = (case line of [] \<Rightarrow> False | ch # _ \<Rightarrow> ch = CHR ''*'')"

definition is_empty_line :: "string \<Rightarrow> bool" where
  "is_empty_line line = (line = [])"

text \<open>\<open>process_line\<close> on the state whose \<open>input_line\<close> is \<open>line\<close>.\<close>

definition process_line :: "compiler_t \<Rightarrow> string \<Rightarrow> (abort + compiler_t) option" where
  "process_line c0 line =
     (let c = c0\<lparr>input := line\<rparr> in
      if is_comment_line line then Some (Inr c)
      else if isdigit (cur c) then process_specs (parse_identifier c)
      else if cur c \<noteq> CHR '' '' \<and> \<not> is_empty_line line
      then Some (Inr (report_error c ERR_INCOMPREHENSIBLE_SPEC))
      else process_specs c)"

text \<open>
  \<open>normalize_line\<close> on a buffer filled by \<open>fgets\<close>: the C string ends at the first
  NUL; trailing newlines and carriage returns are removed; letters become upper case.
\<close>

definition normalize_line :: "string \<Rightarrow> string" where
  "normalize_line buf =
     map toupper
       (rev (dropWhile (\<lambda>ch. ch = CHR 0x0A \<or> ch = CHR 0x0D)
               (rev (takeWhile (\<lambda>ch. ch \<noteq> NUL) buf))))"

text \<open>
  \<open>process_file\<close>; the source file is given as the list of the buffers that the
  successive calls of \<open>fgets\<close> return.
\<close>

fun process_file :: "compiler_t \<Rightarrow> string list \<Rightarrow> (abort + compiler_t) option" where
  "process_file c [] = Some (Inr c)"
| "process_file c (buf # rest) =
     (case process_line (c\<lparr>line_number := line_number c + 1\<rparr>) (normalize_line buf) of
        None \<Rightarrow> None
      | Some (Inl a) \<Rightarrow> Some (Inl a)
      | Some (Inr c') \<Rightarrow>
          if error_flag c' \<or> end_flag c' then Some (Inr c') else process_file c' rest)"

text \<open>
  \<open>main\<close>: the object code that is handed to \<open>objfile_write\<close>, which happens only
  when the compilation has ended with \<open>error_flag\<close> unset.
\<close>

definition compiled_code :: "16 word \<Rightarrow> string list \<Rightarrow> 8 word list option" where
  "compiled_code base_addr src =
     (case process_file (init_compiler base_addr) src of
        Some (Inr c) \<Rightarrow> if error_flag c then None else Some (code c)
      | _ \<Rightarrow> None)"

subsection \<open>The duration table read as a table of pairs\<close>

text \<open>
  \<open>parse_duration\<close> finds the duration code by index arithmetic on \<open>code_table\<close>:
  three consecutive entries per letter of \<open>duration_letters\<close>, for the dotted, the
  plain and the triplet form. \<open>duration_pair_table\<close> lists the non-zero entries of
  \<open>code_table\<close> under the (letter, modifier) pair that selects them.
\<close>

datatype modifier = Plain | Dotted | Triplet

definition modifier_of :: "string \<Rightarrow> modifier" where
  "modifier_of s =
     (case s of
        [] \<Rightarrow> Plain
      | m # _ \<Rightarrow> if m = CHR ''.'' then Dotted else if m = CHR ''3'' then Triplet else Plain)"

definition after_modifier :: "string \<Rightarrow> string" where
  "after_modifier s = (if modifier_of s = Plain then s else tl s)"

definition duration_pair_table :: "((char \<times> modifier) \<times> 8 word) list" where
  "duration_pair_table =
     [((CHR ''W'', Plain), 1),
      ((CHR ''H'', Dotted), 2), ((CHR ''H'', Plain), 3), ((CHR ''H'', Triplet), 5),
      ((CHR ''Q'', Dotted), 4), ((CHR ''Q'', Plain), 6), ((CHR ''Q'', Triplet), 8),
      ((CHR ''E'', Dotted), 7), ((CHR ''E'', Plain), 9), ((CHR ''E'', Triplet), 11),
      ((CHR ''S'', Dotted), 10), ((CHR ''S'', Plain), 12), ((CHR ''S'', Triplet), 14),
      ((CHR ''T'', Dotted), 13), ((CHR ''T'', Plain), 15)]"

section \<open>The NOTRAN interpreter (notint.c)\<close>

subsection \<open>Constants and data structures\<close>

definition BUFFER_FRAMES :: nat where [simp]: "BUFFER_FRAMES = 1024"
definition MAX_VOICES :: nat where [simp]: "MAX_VOICES = 4"
definition NUM_NOTES :: nat where [simp]: "NUM_NOTES = 62"
definition PITCH_MASK :: "8 word" where [simp]: "PITCH_MASK = 0xF0"
definition DURATION_MASK :: "8 word" where [simp]: "DURATION_MASK = 0x0F"
definition PITCH_SHIFT :: nat where [simp]: "PITCH_SHIFT = 4"

definition CMD_END :: "8 word" where [simp]: "CMD_END = 0x00"
definition CMD_TEMPO :: "8 word" where [simp]: "CMD_TEMPO = 0x10"
definition CMD_CALL :: "8 word" where [simp]: "CMD_CALL = 0x20"
definition CMD_RETURN :: "8 word" where [simp]: "CMD_RETURN = 0x30"
definition CMD_JUMP :: "8 word" where [simp]: "CMD_JUMP = 0x40"
definition CMD_SETVOICES :: "8 word" where [simp]: "CMD_SETVOICES = 0x50"
definition CMD_LONGNOTE_ABS :: "8 word" where [simp]: "CMD_LONGNOTE_ABS = 0x60"
definition CMD_LONGNOTE_REL :: "8 word" where [simp]: "CMD_LONGNOTE_REL = 0x70"
definition CMD_DEACTIVATE :: "8 word" where [simp]: "CMD_DEACTIVATE = 0x80"
definition CMD_ACTIVATE :: "8 word" where [simp]: "CMD_ACTIVATE = 0x90"

definition PITCH_REST :: "8 word" where [simp]: "PITCH_REST = - 8"
definition VOICE_INACTIVE :: "8 word" where [simp]: "VOICE_INACTIVE = 0xFF"
definition STACK_SIZE :: nat where [simp]: "STACK_SIZE = 256"
definition SAMPLE_MAX :: "16 word" where [simp]: "SAMPLE_MAX = 255"

text \<open>
  \<open>voice_t\<close> without its padding byte. The field \<open>duration\<close> is called
  \<open>v_duration\<close> here, since the compiler's \<open>voice_state_t\<close> has a field of that name.
\<close>

record voice_t =
  phase_frac :: "8 word"
  phase_int :: "8 word"
  wavetable_page :: "8 word"
  note_offset :: "8 word"
  freq_increment :: "16 word"
  v_duration :: "8 word"

text \<open>
  \<open>interpreter_state_t\<close>. \<open>i_voices\<close> and \<open>i_duration\<close> are the fields \<open>voices\<close>
  and \<open>duration\<close>. \<open>object_code\<close> is the buffer of \<open>code_size\<close> bytes. A wavetable is
  a block of 256 bytes indexed by a byte, hence a function from bytes to bytes;
  \<open>wavetables\<close> lists the \<open>num_wavetables\<close> tables. \<open>call_stack\<close> holds the
  \<open>stack_ptr\<close> entries in use, the most recent first. \<open>pcm_out\<close> is the sequence of
  samples handed to the audio sink (the WAV writer or the sound device) so far; the
  sink is taken to accept every buffer. The unused field \<open>duration_counter\<close> is
  left out.
\<close>

record interpreter_state_t =
  i_voices :: "voice_t list"
  object_code :: "8 word list"
  code_ptr :: nat
  wavetables :: "(8 word \<Rightarrow> 8 word) list"
  tempo :: "8 word"
  i_duration :: "8 word"
  call_stack :: "16 word list"
  num_active_voices :: int
  running :: bool
  max_jumps :: "32 word"
  pcm_out :: "8 word list"

text \<open>The fields \<open>code_size\<close> and \<open>num_wavetables\<close> of the interpreter state.\<close>

definition ni_code_size :: "interpreter_state_t \<Rightarrow> nat" where
  "ni_code_size st = length (object_code st)"

definition num_wavetables :: "interpreter_state_t \<Rightarrow> int" where
  "num_wavetables st = int (length (wavetables st))"

definition DURATION_TABLE :: "8 word list" where
  "DURATION_TABLE = [0, 192, 144, 96, 72, 64, 48, 36, 32, 24, 18, 16, 12, 9, 8, 6]"

definition FREQUENCY_TABLE :: "16 word list" where
  "FREQUENCY_TABLE =
     [0x0000, 0x00F4, 0x0103, 0x0112, 0x0123, 0x0134, 0x0146, 0x015A,
      0x016E, 0x0184, 0x019B, 0x01B3, 0x01CD, 0x01E9, 0x0206, 0x0225,
      0x0245, 0x0268, 0x028C, 0x02B3, 0x02DC, 0x0308, 0x0336, 0x0367,
      0x039A, 0x03D1, 0x040B, 0x0449, 0x048A, 0x04CF, 0x0519, 0x0566,
      0x05B8, 0x060F, 0x066C, 0x06CD, 0x0735, 0x07A3, 0x0817, 0x0892,
      0x0915, 0x099F, 0x0A31, 0x0ACC, 0x0B71, 0x0C1F, 0x0CD7, 0x0D9B,
      0x0E6A, 0x0F45, 0x102E, 0x1124, 0x1229, 0x133E, 0x1462, 0x1599,
      0x16E2, 0x183E, 0x19AF, 0x1B36, 0x1CD4, 0x1E8B]"

subsection \<open>Utility functions\<close>

definition get_frequency_increment :: "8 word \<Rightarrow> 16 word" where
  "get_frequency_increment offs =
     (if unat offs div 2 \<ge> NUM_NOTES then 0 else FREQUENCY_TABLE ! (unat offs div 2))"

text \<open>The result is an \<open>int8_t\<close>: the byte is read as a signed value.\<close>

definition sign_extend_4bit :: "8 word \<Rightarrow> 8 word" where
  "sign_extend_4bit nibble = (if sint nibble \<ge> 8 then nibble OR 0xF0 else nibble)"

definition clamp_sample :: "16 word \<Rightarrow> 8 word" where
  "clamp_sample v = (if v > SAMPLE_MAX then ucast SAMPLE_MAX else ucast v)"

definition is_control_command :: "8 word \<Rightarrow> bool" where
  "is_control_command command = (command AND DURATION_MASK = 0)"

definition is_long_note_command :: "8 word \<Rightarrow> bool" where
  "is_long_note_command command =
     (command AND PITCH_MASK = CMD_LONGNOTE_ABS \<or> command AND PITCH_MASK = CMD_LONGNOTE_REL)"

definition is_voice_active :: "voice_t \<Rightarrow> bool" where
  "is_voice_active voice = (v_duration voice \<noteq> VOICE_INACTIVE)"

definition is_voice_expired :: "voice_t \<Rightarrow> bool" where
  "is_voice_expired voice = (v_duration voice = 0)"

subsection \<open>Voice management\<close>

definition init_voice :: "8 word \<Rightarrow> voice_t" where
  "init_voice wavetable_base =
     \<lparr> phase_frac = 0, phase_int = 0, wavetable_page = wavetable_base, note_offset = 0,
       freq_increment = 0, v_duration = VOICE_INACTIVE \<rparr>"

definition set_voice_silent :: "voice_t \<Rightarrow> voice_t" where
  "set_voice_silent voice = voice\<lparr>freq_increment := 0\<rparr>"

text \<open>
  \<open>activate_voice\<close> and \<open>deactivate_voice\<close> of notint.c; the prefix \<open>ni_\<close> keeps
  them apart from the compiler's functions of the same names.
\<close>

definition ni_activate_voice :: "voice_t \<Rightarrow> voice_t" where
  "ni_activate_voice voice = set_voice_silent (voice\<lparr>v_duration := 0\<rparr>)"

definition ni_deactivate_voice :: "voice_t \<Rightarrow> voice_t" where
  "ni_deactivate_voice voice = set_voice_silent (voice\<lparr>v_duration := VOICE_INACTIVE\<rparr>)"

definition reset_phase_accumulator :: "voice_t \<Rightarrow> voice_t" where
  "reset_phase_accumulator voice = voice\<lparr>phase_frac := 0, phase_int := 0\<rparr>"

definition update_voice_frequency :: "voice_t \<Rightarrow> 8 word \<Rightarrow> voice_t" where
  "update_voice_frequency voice offs =
     voice\<lparr>note_offset := offs, freq_increment := get_frequency_increment offs\<rparr>"

definition assign_short_note :: "voice_t \<Rightarrow> 8 word \<Rightarrow> 8 word \<Rightarrow> voice_t" where
  "assign_short_note voice pitch_field dc =
     (let prev_note_offset = note_offset voice;
          v1 = voice\<lparr>v_duration := DURATION_TABLE ! unat dc\<rparr>;
          pitch_nibble = sign_extend_4bit (drop_bit PITCH_SHIFT pitch_field)
      in if pitch_nibble = PITCH_REST then set_voice_silent v1
         else
           let byte_offset = pitch_nibble * 2;
               v2 = update_voice_frequency v1 (note_offset v1 + byte_offset)
           in if byte_offset = 0 \<and> prev_note_offset = note_offset v2
              then reset_phase_accumulator v2 else v2)"

definition assign_long_note_absolute ::
    "voice_t \<Rightarrow> 8 word \<Rightarrow> 8 word \<Rightarrow> 8 word \<Rightarrow> voice_t" where
  "assign_long_note_absolute voice pitch_byte wform dc =
     update_voice_frequency
       (voice\<lparr>note_offset := pitch_byte, wavetable_page := wform,
              v_duration := DURATION_TABLE ! unat dc\<rparr>)
       pitch_byte"

definition assign_long_note_relative ::
    "voice_t \<Rightarrow> 8 word \<Rightarrow> 8 word \<Rightarrow> 8 word \<Rightarrow> voice_t" where
  "assign_long_note_relative voice pitch_displacement wform dc =
     update_voice_frequency
       (voice\<lparr>note_offset := note_offset voice + pitch_displacement, wavetable_page := wform,
              v_duration := DURATION_TABLE ! unat dc\<rparr>)
       (note_offset voice + pitch_displacement)"

subsection \<open>Interpreter state\<close>

text \<open>\<open>init_interpreter\<close>; \<open>None\<close> is the return value -1.\<close>

definition init_interpreter ::
    "8 word list \<Rightarrow> (8 word \<Rightarrow> 8 word) list \<Rightarrow> 32 word \<Rightarrow> interpreter_state_t option" where
  "init_interpreter obj tables jumps =
     (if length obj = 0 \<or> length tables = 0 then None
      else Some \<lparr> i_voices = replicate MAX_VOICES (init_voice 0), object_code = obj,
                  code_ptr = 0, wavetables = tables, tempo = 0, i_duration = 0,
                  call_stack = [], num_active_voices = int MAX_VOICES, running = True,
                  max_jumps = jumps, pcm_out = [] \<rparr>)"

definition set_num_voices :: "interpreter_state_t \<Rightarrow> int \<Rightarrow> interpreter_state_t" where
  "set_num_voices st num_voices =
     st\<lparr>num_active_voices :=
          (if num_voices < 1 then 1
           else if num_voices > int MAX_VOICES then int MAX_VOICES else num_voices)\<rparr>"

text \<open>\<open>state->voices[i] = voice\<close>\<close>

definition set_voice :: "interpreter_state_t \<Rightarrow> nat \<Rightarrow> voice_t \<Rightarrow> interpreter_state_t" where
  "set_voice st i voice = st\<lparr>i_voices := (i_voices st)[i := voice]\<rparr>"

subsection \<open>Bytecode reading\<close>

definition read_code_byte :: "interpreter_state_t \<Rightarrow> 8 word \<times> interpreter_state_t" where
  "read_code_byte st =
     (if code_ptr st \<ge> ni_code_size st then (0, st)
      else (object_code st ! code_ptr st, st\<lparr>code_ptr := code_ptr st + 1\<rparr>))"

definition read_code_address :: "interpreter_state_t \<Rightarrow> 16 word \<times> interpreter_state_t" where
  "read_code_address st =
     (case read_code_byte st of
        (low, st1) \<Rightarrow>
          (case read_code_byte st1 of
             (high, st2) \<Rightarrow> (ucast low OR push_bit 8 (ucast high), st2)))"

subsection \<open>Command processing\<close>

text \<open>
  The handlers return the C return value (0 to go on, 1 to stop, -1 for a fatal
  error) together with the new state.
\<close>

definition handle_tempo_command :: "interpreter_state_t \<Rightarrow> int \<times> interpreter_state_t" where
  "handle_tempo_command st =
     (case read_code_byte st of
        (new_tempo, st1) \<Rightarrow>
          if new_tempo = 0 then (- 1, st1) else (0, st1\<lparr>tempo := new_tempo\<rparr>))"

definition handle_call_command :: "interpreter_state_t \<Rightarrow> int \<times> interpreter_state_t" where
  "handle_call_command st =
     (if length (call_stack st) \<ge> STACK_SIZE then (- 1, st)
      else case read_code_address (st\<lparr>call_stack := word_of_nat (code_ptr st + 2) # call_stack st\<rparr>) of
        (addr, st1) \<Rightarrow>
          if unat addr \<ge> ni_code_size st1 then (- 1, st1)
          else (0, st1\<lparr>code_ptr := unat addr\<rparr>))"

definition handle_return_command :: "interpreter_state_t \<Rightarrow> int \<times> interpreter_state_t" where
  "handle_return_command st =
     (case call_stack st of
        [] \<Rightarrow> (- 1, st)
      | ret # stack \<Rightarrow> (0, st\<lparr>code_ptr := unat ret, call_stack := stack\<rparr>))"

definition handle_jump_command :: "interpreter_state_t \<Rightarrow> int \<times> interpreter_state_t" where
  "handle_jump_command st =
     (if max_jumps st = 0 then (1, st)
      else case read_code_address (st\<lparr>max_jumps := max_jumps st - 1\<rparr>) of
        (addr, st1) \<Rightarrow>
          if unat addr \<ge> ni_code_size st1 then (- 1, st1)
          else (0, st1\<lparr>code_ptr := unat addr\<rparr>))"

definition handle_setvoices_command :: "interpreter_state_t \<Rightarrow> int \<times> interpreter_state_t" where
  "handle_setvoices_command st =
     (case read_code_byte st of
        (num_voices, st1) \<Rightarrow> (0, set_num_voices st1 (uint num_voices)))"

definition handle_deactivate_command :: "interpreter_state_t \<Rightarrow> int \<times> interpreter_state_t" where
  "handle_deactivate_command st =
     (case read_code_byte st of
        (b, st1) \<Rightarrow>
          (0, set_voice st1 (unat (b AND 0x03))
                (ni_deactivate_voice (i_voices st1 ! unat (b AND 0x03)))))"

definition handle_activate_command :: "interpreter_state_t \<Rightarrow> int \<times> interpreter_state_t" where
  "handle_activate_command st =
     (case read_code_byte st of
        (b, st1) \<Rightarrow>
          (0, set_voice st1 (unat (b AND 0x03))
                (ni_activate_voice (i_voices st1 ! unat (b AND 0x03)))))"

definition process_control_command ::
    "interpreter_state_t \<Rightarrow> 8 word \<Rightarrow> int \<times> interpreter_state_t" where
  "process_control_command st command =
     (if is_long_note_command command then (- 1, st)
      else if command AND PITCH_MASK = CMD_END then (1, st)
      else if command AND PITCH_MASK = CMD_TEMPO then handle_tempo_command st
      else if command AND PITCH_MASK = CMD_CALL then handle_call_command st
      else if command AND PITCH_MASK = CMD_RETURN then handle_return_command st
      else if command AND PITCH_MASK = CMD_JUMP then handle_jump_command st
      else if command AND PITCH_MASK = CMD_SETVOICES then handle_setvoices_command st
      else if command AND PITCH_MASK = CMD_DEACTIVATE then handle_deactivate_command st
      else if command AND PITCH_MASK = CMD_ACTIVATE then handle_activate_command st
      else (- 1, st))"

text \<open>
  \<open>process_long_note\<close> for the voice \<open>state->voices[voice_idx]\<close>. The clamped
  waveform \<open>num_wavetables - 1\<close> is converted to \<open>uint8_t\<close>.
\<close>

definition process_long_note ::
    "interpreter_state_t \<Rightarrow> nat \<Rightarrow> 8 word \<Rightarrow> interpreter_state_t" where
  "process_long_note st voice_idx command =
     (case read_code_byte st of
        (pitch_byte, st1) \<Rightarrow>
          (case read_code_byte st1 of
             (wd_byte, st2) \<Rightarrow>
               let wform0 = drop_bit 4 wd_byte AND 0x0F;
                   dc0 = wd_byte AND 0x0F;
                   dc = (if dc0 = 0 then 1 else dc0);
                   wform = (if uint wform0 \<ge> num_wavetables st2
                            then word_of_int (num_wavetables st2 - 1) else wform0)
               in if command AND PITCH_MASK = CMD_LONGNOTE_ABS
                  then set_voice st2 voice_idx
                         (assign_long_note_absolute (i_voices st2 ! voice_idx) pitch_byte wform dc)
                  else set_voice st2 voice_idx
                         (assign_long_note_relative (i_voices st2 ! voice_idx) pitch_byte wform dc)))"

definition find_shortest_duration :: "interpreter_state_t \<Rightarrow> 8 word" where
  "find_shortest_duration st =
     foldl (\<lambda>shortest voice.
              if is_voice_active voice \<and> \<not> is_voice_expired voice \<and> v_duration voice < shortest
              then v_duration voice else shortest)
           VOICE_INACTIVE (i_voices st)"

subsection \<open>Synthesis engine\<close>

definition advance_phase :: "voice_t \<Rightarrow> voice_t" where
  "advance_phase voice =
     (let phase = (push_bit 8 (ucast (phase_int voice)) OR ucast (phase_frac voice) :: 16 word)
                    + freq_increment voice
      in voice\<lparr>phase_frac := ucast (phase AND 0xFF),
               phase_int := ucast (drop_bit 8 phase AND 0xFF)\<rparr>)"

text \<open>
  The voice loop of \<open>generate_sample\<close> over the indices still to visit, with the
  running sum (the local \<open>sum\<close>) as \<open>acc\<close>.
\<close>

fun mix_voices ::
    "nat list \<Rightarrow> interpreter_state_t \<Rightarrow> 16 word \<Rightarrow> 16 word \<times> interpreter_state_t" where
  "mix_voices [] st acc = (acc, st)"
| "mix_voices (i # others) st acc =
     (if freq_increment (i_voices st ! i) = 0
         \<or> uint (wavetable_page (i_voices st ! i)) \<ge> num_wavetables st
      then mix_voices others st acc
      else mix_voices others
             (set_voice st i (advance_phase (i_voices st ! i)))
             (acc + ucast ((wavetables st ! unat (wavetable_page (i_voices st ! i)))
                             (phase_int (i_voices st ! i)))))"

definition generate_sample :: "interpreter_state_t \<Rightarrow> 8 word \<times> interpreter_state_t" where
  "generate_sample st =
     (case mix_voices [0 ..< nat (num_active_voices st)] st 0 of
        (acc, st1) \<Rightarrow> (clamp_sample acc, st1))"

definition write_audio_buffer ::
    "interpreter_state_t \<Rightarrow> 8 word list \<Rightarrow> interpreter_state_t" where
  "write_audio_buffer st buffer = st\<lparr>pcm_out := pcm_out st @ buffer\<rparr>"

text \<open>
  The sample loop of \<open>play_notes\<close>: the first argument is
  \<open>total_samples - samples_generated\<close>, \<open>buffer\<close> holds the \<open>buffer_pos\<close> samples
  not yet written.
\<close>

fun play_loop ::
    "nat \<Rightarrow> interpreter_state_t \<Rightarrow> 8 word list \<Rightarrow> interpreter_state_t \<times> 8 word list" where
  "play_loop 0 st buffer = (st, buffer)"
| "play_loop (Suc n) st buffer =
     (if running st
      then case generate_sample st of
             (s, st1) \<Rightarrow>
               if length (buffer @ [s]) \<ge> BUFFER_FRAMES
               then play_loop n (write_audio_buffer st1 (buffer @ [s])) []
               else play_loop n st1 (buffer @ [s])
      else (st, buffer))"

definition play_notes :: "interpreter_state_t \<Rightarrow> interpreter_state_t" where
  "play_notes st =
     (case play_loop (nat (uint (tempo st) * uint (i_duration st))) st [] of
        (st1, buffer) \<Rightarrow> if length buffer > 0 then write_audio_buffer st1 buffer else st1)"

subsection \<open>Interpreter main loop\<close>

text \<open>
  The loops of \<open>process_pure_control_commands\<close> and \<open>interpret_loop\<close> follow jumps
  and calls of the byte code; \<open>None\<close> stands for a loop that never returns.
\<close>

partial_function (option) process_pure_control_commands ::
    "interpreter_state_t \<Rightarrow> (int \<times> interpreter_state_t) option" where
  "process_pure_control_commands st =
     (if code_ptr st < ni_code_size st
      then if is_control_command (object_code st ! code_ptr st)
              \<and> \<not> is_long_note_command (object_code st ! code_ptr st)
           then case process_control_command (st\<lparr>code_ptr := code_ptr st + 1\<rparr>)
                       (object_code st ! code_ptr st) of
                  (result, st1) \<Rightarrow>
                    if result \<noteq> 0 then Some (result, st1)
                    else process_pure_control_commands st1
           else Some (0, st)
      else Some (0, st))"

declare process_pure_control_commands.simps [code]

text \<open>
  The loop of \<open>process_notes_for_voices\<close> over the voice indices still to visit.
  The counter \<open>notes_assigned\<close>, which the caller ignores, is left out.
\<close>

fun process_notes_loop :: "nat list \<Rightarrow> interpreter_state_t \<Rightarrow> interpreter_state_t" where
  "process_notes_loop [] st = st"
| "process_notes_loop (voice_idx # others) st =
     (if \<not> is_voice_active (i_voices st ! voice_idx) then process_notes_loop others st
      else if v_duration (i_voices st ! voice_idx) > 0 \<and> i_duration st > 0
              \<and> v_duration (i_voices st ! voice_idx) > i_duration st
      then process_notes_loop others
             (set_voice st voice_idx
                ((i_voices st ! voice_idx)
                   \<lparr>v_duration := v_duration (i_voices st ! voice_idx) - i_duration st\<rparr>))
      else
        let st1 = (if v_duration (i_voices st ! voice_idx) > 0 \<and> i_duration st > 0
                   then set_voice st voice_idx ((i_voices st ! voice_idx)\<lparr>v_duration := 0\<rparr>)
                   else st)
        in if \<not> is_voice_expired (i_voices st1 ! voice_idx) then process_notes_loop others st1
           else if code_ptr st1 \<ge> ni_code_size st1 then st1
           else case read_code_byte st1 of
                  (command, st2) \<Rightarrow>
                    if command AND DURATION_MASK = 0
                    then if is_long_note_command command
                         then process_notes_loop others (process_long_note st2 voice_idx command)
                         else st2\<lparr>code_ptr := code_ptr st2 - 1\<rparr>
                    else process_notes_loop others
                           (set_voice st2 voice_idx
                              (assign_short_note (i_voices st2 ! voice_idx)
                                 (command AND PITCH_MASK) (command AND DURATION_MASK))))"

definition process_notes_for_voices :: "interpreter_state_t \<Rightarrow> interpreter_state_t" where
  "process_notes_for_voices st = process_notes_loop [0 ..< MAX_VOICES] st"

text \<open>One pass through the body of the \<open>while\<close> loop of \<open>interpret_loop\<close> after the
  control commands: the notes, the event duration, and the samples of the event.\<close>

definition schedule_event :: "interpreter_state_t \<Rightarrow> interpreter_state_t" where
  "schedule_event st =
     (let st1 = process_notes_for_voices st;
          st2 = st1\<lparr>i_duration := find_shortest_duration st1\<rparr>
      in if i_duration st2 = VOICE_INACTIVE \<or> i_duration st2 = 0 then st2
         else play_notes st2)"

partial_function (option) interpret_while ::
    "interpreter_state_t \<Rightarrow> (int \<times> interpreter_state_t) option" where
  "interpret_while st =
     (if running st \<and> code_ptr st < ni_code_size st
      then case process_pure_control_commands st of
             None \<Rightarrow> None
           | Some (pcc_result, st1) \<Rightarrow>
               if pcc_result \<noteq> 0 then Some (if pcc_result > 0 then 0 else - 1, st1)
               else if code_ptr st1 \<ge> ni_code_size st1 then Some (0, st1)
               else interpret_while (schedule_event st1)
      else Some (0, st))"

declare interpret_while.simps [code]

definition interpret_loop :: "interpreter_state_t \<Rightarrow> (int \<times> interpreter_state_t) option" where
  "interpret_loop st = interpret_while (if tempo st = 0 then st\<lparr>tempo := 32\<rparr> else st)"

section \<open>Object file output (objfile.c)\<close>

definition PAP_BYTES_PER_LINE :: nat where [simp]: "PAP_BYTES_PER_LINE = 24"
definition INTEL_BYTES_PER_LINE :: nat where [simp]: "INTEL_BYTES_PER_LINE = 32"

datatype output_format_t = OUT_BIN | OUT_PAP | OUT_IHEX

text \<open>
  The output file is modelled as the string of the characters written to it; every
  write is taken to succeed. \<open>printf_X w n\<close> is the text that the conversion
  \<open>%0wX\<close> prints for the unsigned value \<open>n\<close>: its upper-case hexadecimal digits,
  padded with zeros on the left to at least \<open>w\<close> characters.
\<close>

definition hex_digit :: "nat \<Rightarrow> char" where
  "hex_digit d = ''0123456789ABCDEF'' ! d"

fun to_hex :: "nat \<Rightarrow> string" where
  "to_hex n = (if n < 16 then [hex_digit n] else to_hex (n div 16) @ [hex_digit (n mod 16)])"

declare to_hex.simps [simp del]

definition printf_X :: "nat \<Rightarrow> nat \<Rightarrow> string" where
  "printf_X w n = replicate (w - length (to_hex n)) (CHR ''0'') @ to_hex n"

definition calculate_checksum :: "16 word \<Rightarrow> 8 word list \<Rightarrow> 16 word" where
  "calculate_checksum addr data =
     foldl (\<lambda>checksum b. checksum + ucast b)
       (word_of_nat (length data) + (drop_bit 8 addr AND 0xFF) + (addr AND 0xFF)) data"

definition write_hex_bytes :: "8 word list \<Rightarrow> string" where
  "write_hex_bytes data = concat (map (\<lambda>b. printf_X 2 (unat b)) data)"

definition write_pap_record :: "16 word \<Rightarrow> 8 word list \<Rightarrow> 16 word \<Rightarrow> string" where
  "write_pap_record addr data checksum =
     '';'' @ printf_X 2 (length data) @ printf_X 4 (unat addr)
       @ write_hex_bytes data
       @ printf_X 4 (unat checksum) @ [CHR 0x0A]"

text \<open>\<open>~checksum + 1\<close> is computed in \<open>int\<close> and converted to \<open>uint8_t\<close>.\<close>

definition write_intel_record :: "16 word \<Rightarrow> 8 word list \<Rightarrow> 16 word \<Rightarrow> string" where
  "write_intel_record addr data checksum =
     '':'' @ printf_X 2 (length data) @ printf_X 4 (unat addr) @ ''00''
       @ write_hex_bytes data
       @ printf_X 2 (unat (word_of_int (NOT (uint checksum) + 1) :: 8 word)) @ [CHR 0x0A]"

definition write_pap_trailer :: "16 word \<Rightarrow> string" where
  "write_pap_trailer line_count =
     '';00'' @ printf_X 4 (unat line_count)
       @ printf_X 4 (unat ((drop_bit 8 line_count AND 0xFF) + (line_count AND 0xFF)))
       @ [CHR 0x0A]"

definition write_intel_eof :: string where
  "write_intel_eof = '':00000001FF'' @ [CHR 0x0A]"

definition write_binary_format :: "8 word list \<Rightarrow> string" where
  "write_binary_format data = map (\<lambda>b. char_of (unat b)) data"

definition bytes_per_line :: "bool \<Rightarrow> nat" where
  "bytes_per_line is_pap = (if is_pap then PAP_BYTES_PER_LINE else INTEL_BYTES_PER_LINE)"

text \<open>
  The loop of \<open>write_hex_format\<close> with its trailer: \<open>data\<close> holds the
  \<open>bytes_remaining\<close> bytes still to be written.
\<close>

function write_hex_lines :: "bool \<Rightarrow> 8 word list \<Rightarrow> 16 word \<Rightarrow> 16 word \<Rightarrow> string" where
  "write_hex_lines is_pap data current_addr line_count =
     (if length data > 0
      then (if is_pap
            then write_pap_record current_addr
                   (take (min (bytes_per_line is_pap) (length data)) data)
                   (calculate_checksum current_addr
                      (take (min (bytes_per_line is_pap) (length data)) data))
            else write_intel_record current_addr
                   (take (min (bytes_per_line is_pap) (length data)) data)
                   (calculate_checksum current_addr
                      (take (min (bytes_per_line is_pap) (length data)) data)))
           @ write_hex_lines is_pap
               (drop (min (bytes_per_line is_pap) (length data)) data)
               (current_addr + word_of_nat (min (bytes_per_line is_pap) (length data)))
               (line_count + 1)
      else if is_pap then write_pap_trailer line_count else write_intel_eof)"
  by pat_completeness auto
termination
  by (relation "measure (\<lambda>(is_pap, data, current_addr, line_count). length data)")
     (auto simp: bytes_per_line_def)

declare write_hex_lines.simps [simp del]

definition write_hex_format :: "8 word list \<Rightarrow> 16 word \<Rightarrow> bool \<Rightarrow> string" where
  "write_hex_format data base_addr is_pap = write_hex_lines is_pap data base_addr 0"

text \<open>\<open>objfile_write\<close> for a file and a data buffer that are not null.\<close>

definition objfile_write :: "output_format_t \<Rightarrow> 8 word list \<Rightarrow> 16 word \<Rightarrow> string" where
  "objfile_write format data base_addr =
     (if length data = 0 then []
      else case format of
             OUT_BIN \<Rightarrow> write_binary_format data
           | OUT_PAP \<Rightarrow> write_hex_format data base_addr True
           | OUT_IHEX \<Rightarrow> write_hex_format data base_addr False)"

subsection \<open>The mixing sum as a sum of natural numbers\<close>

text \<open>
  The value that voice \<open>i\<close> adds to the sum of \<open>generate_sample\<close> in state \<open>st\<close>, and
  the exact (unbounded) sum of these values over the voices that are mixed.
\<close>

definition contribution :: "interpreter_state_t \<Rightarrow> nat \<Rightarrow> nat" where
  "contribution st i =
     (if freq_increment (i_voices st ! i) = 0
         \<or> uint (wavetable_page (i_voices st ! i)) \<ge> num_wavetables st
      then 0
      else unat ((wavetables st ! unat (wavetable_page (i_voices st ! i)))
                   (phase_int (i_voices st ! i))))"

definition exact_mix :: "interpreter_state_t \<Rightarrow> nat" where
  "exact_mix st = sum_list (map (contribution st) [0 ..< nat (num_active_voices st)])"

subsection \<open>The operand of a jump, and states for concrete checks\<close>

text \<open>
  The target address that \<open>handle_jump_command\<close> reads when the JUMP opcode is the
  byte at \<open>code_ptr\<close>: the two operand bytes behind it, low byte first.
\<close>

definition jump_target :: "interpreter_state_t \<Rightarrow> nat" where
  "jump_target st = unat (fst (read_code_address (st\<lparr>code_ptr := code_ptr st + 1\<rparr>)))"

text \<open>
  An interpreter state as \<open>init_interpreter\<close> leaves it, for the object code
  \<open>obj\<close> and a bank of one wavetable (a ramp), with the program counter at \<open>ptr\<close>,
  tempo 32 and a budget of one jump.
\<close>

definition state_at :: "8 word list \<Rightarrow> nat \<Rightarrow> interpreter_state_t" where
  "state_at obj ptr =
     \<lparr> i_voices = replicate MAX_VOICES (init_voice 0), object_code = obj, code_ptr = ptr,
       wavetables = [\<lambda>x. x], tempo = 32, i_duration = 0, call_stack = [],
       num_active_voices = int MAX_VOICES, running = True, max_jumps = 1, pcm_out = [] \<rparr>"

text \<open>
  A state in which all four voices sound and read the top value 255 from a wavetable
  that is constant.
\<close>

definition full_scale_state :: interpreter_state_t where
  "full_scale_state =
     \<lparr> i_voices = replicate MAX_VOICES ((init_voice 0)\<lparr>freq_increment := 0x01CD, v_duration := 72\<rparr>),
       object_code = [0], code_ptr = 0,
       wavetables = [\<lambda>x. 0xFF], tempo = 32, i_duration = 72, call_stack = [],
       num_active_voices = int MAX_VOICES, running = True, max_jumps = 1, pcm_out = [] \<rparr>"

subsection \<open>Compiler states and notes for concrete checks\<close>

text \<open>
  The compiler state after the line \<open>" ACT 1 C4Q"\<close> (voice 1 active, its note C4
  emitted in long form, the event closed), and three note specifications as
  \<open>parse_note\<close> builds them: the quarter notes D4 and C6 and a quarter rest.
\<close>

definition state_after_c4q :: compiler_t where
  "state_after_c4q =
     \<lparr> base_address = 0, input = [], line_number = 1, symbols = [],
       code = [0x90, 0x00, 0x60, 0x4A, 0x06], event_building = False, voice_ptr = 0,
       voices =
         [\<lparr>waveform = 0, duration = 0, pitch = 37, octave = 4, use_absolute = False\<rparr>,
          \<lparr>waveform = 0, duration = 0xFF, pitch = 0, octave = 0, use_absolute = True\<rparr>,
          \<lparr>waveform = 0, duration = 0xFF, pitch = 0, octave = 0, use_absolute = True\<rparr>,
          \<lparr>waveform = 0, duration = 0xFF, pitch = 0, octave = 0, use_absolute = True\<rparr>],
       sub_address = 0, end_flag = False, error_flag = False, diagnostics = [] \<rparr>"

text \<open>The initial compiler state at base address 0 with \<open>input_ptr\<close> at the text \<open>s\<close>.\<close>

definition state_with_input :: "string \<Rightarrow> compiler_t" where
  "state_with_input s = (init_compiler 0)\<lparr>input := s\<rparr>"

definition note_d4q :: note_spec_t where
  "note_d4q = \<lparr>n_voice = 0, n_pitch = 3, n_octave = 4, duration_code = 6, duration_time = 48\<rparr>"

definition note_c6q :: note_spec_t where
  "note_c6q = \<lparr>n_voice = 0, n_pitch = 1, n_octave = 6, duration_code = 6, duration_time = 48\<rparr>"

definition rest_q :: note_spec_t where
  "rest_q = \<lparr>n_voice = 0, n_pitch = 0, n_octave = 0, duration_code = 6, duration_time = 48\<rparr>"

text \<open>
  A state in the middle of an event, before it is closed: voice 1 holds a quarter
  note (48 units), voice 2 an eighth note (24 units), voices 3 and 4 are inactive.
\<close>

definition state_before_close :: compiler_t where
  "state_before_close =
     \<lparr> base_address = 0, input = [], line_number = 1, symbols = [],
       code = [0x90, 0x00, 0x90, 0x01, 0x60, 0x4A, 0x06, 0x60, 0x52, 0x09],
       event_building = True, voice_ptr = 1,
       voices =
         [\<lparr>waveform = 0, duration = 48, pitch = 37, octave = 4, use_absolute = False\<rparr>,
          \<lparr>waveform = 0, duration = 24, pitch = 41, octave = 4, use_absolute = False\<rparr>,
          \<lparr>waveform = 0, duration = 0xFF, pitch = 0, octave = 0, use_absolute = True\<rparr>,
          \<lparr>waveform = 0, duration = 0xFF, pitch = 0, octave = 0, use_absolute = True\<rparr>],
       sub_address = 0, end_flag = False, error_flag = False, diagnostics = [] \<rparr>"

subsection \<open>The states of a single sounding voice\<close>

text \<open>
  The interpreter state in which the program \<open>90 00 60 18 04 00\<close> has assigned its
  note: voice 0 plays wavetable 0 with the frequency increment of note offset 0x18
  for 72 time units at tempo 32, its phase accumulator holds \<open>ph\<close>, the other voices
  are inactive, and \<open>out\<close> has been written to the sink. \<open>tone_samples bank ph n\<close> are
  the \<open>n\<close> values read from wavetable 0 at the high byte of a 16-bit phase that
  starts at \<open>ph\<close> and advances by 0x01CD per sample.
\<close>

definition tone_state ::
    "(8 word \<Rightarrow> 8 word) list \<Rightarrow> 32 word \<Rightarrow> 16 word \<Rightarrow> 8 word list \<Rightarrow> interpreter_state_t" where
  "tone_state bank jumps ph out =
     \<lparr> i_voices =
         [\<lparr>phase_frac = ucast (ph AND 0xFF), phase_int = ucast (drop_bit 8 ph AND 0xFF),
           wavetable_page = 0, note_offset = 0x18, freq_increment = 0x01CD, v_duration = 72\<rparr>,
          init_voice 0, init_voice 0, init_voice 0],
       object_code = [0x90, 0x00, 0x60, 0x18, 0x04, 0x00], code_ptr = 5,
       wavetables = bank, tempo = 32, i_duration = 72, call_stack = [],
       num_active_voices = 4, running = True, max_jumps = jumps, pcm_out = out \<rparr>"

definition tone_samples :: "(8 word \<Rightarrow> 8 word) list \<Rightarrow> 16 word \<Rightarrow> nat \<Rightarrow> 8 word list" where
  "tone_samples bank ph n =
     map (\<lambda>k. (bank ! 0) (ucast (drop_bit 8 (ph + word_of_nat k * 0x01CD)))) [0 ..< n]"

subsection \<open>The record formats in the words of the format description\<close>

text \<open>
  \<open>chunks n xs\<close> cuts \<open>xs\<close> into consecutive pieces of \<open>n\<close> elements, the last one
  possibly shorter. \<open>record_sum\<close> is the running sum of a record: its byte count,
  the high and the low byte of its load address, and its data bytes, as a natural
  number. A PAP record is \<open>;LLAAAA<data>CCCC\<close> with \<open>CCCC\<close> that sum modulo 65536; an
  Intel HEX record is \<open>:LLAAAA00<data>CC\<close> with \<open>CC\<close> the 8-bit two's complement of
  the sum; the PAP trailer is \<open>;00LLLLCCCC\<close> for \<open>LLLL\<close> data records, with \<open>CCCC\<close>
  the sum of the two bytes of \<open>LLLL\<close>. \<open>hex_records\<close> is the text of the records of
  a code image: record \<open>i\<close> holds piece \<open>i\<close> and is addressed at the base address plus
  the number of bytes before it, modulo 65536.
\<close>

function chunks :: "nat \<Rightarrow> 'a list \<Rightarrow> 'a list list" where
  "chunks n xs = (if xs = [] \<or> n = 0 then [] else take n xs # chunks n (drop n xs))"
  by pat_completeness auto
termination
  by (relation "measure (\<lambda>(n, xs). length xs)") auto

declare chunks.simps [simp del]

definition record_sum :: "nat \<Rightarrow> 8 word list \<Rightarrow> nat" where
  "record_sum addr data =
     length data + addr div 256 mod 256 + addr mod 256 + sum_list (map unat data)"

definition pap_record :: "nat \<Rightarrow> 8 word list \<Rightarrow> string" where
  "pap_record addr data =
     '';'' @ printf_X 2 (length data) @ printf_X 4 addr
       @ concat (map (\<lambda>b. printf_X 2 (unat b)) data)
       @ printf_X 4 (record_sum addr data mod 65536) @ [CHR 0x0A]"

definition ihex_record :: "nat \<Rightarrow> 8 word list \<Rightarrow> string" where
  "ihex_record addr data =
     '':'' @ printf_X 2 (length data) @ printf_X 4 addr @ ''00''
       @ concat (map (\<lambda>b. printf_X 2 (unat b)) data)
       @ printf_X 2 ((256 - record_sum addr data mod 256) mod 256) @ [CHR 0x0A]"

definition pap_trailer :: "nat \<Rightarrow> string" where
  "pap_trailer n = '';00'' @ printf_X 4 n @ printf_X 4 (n div 256 + n mod 256) @ [CHR 0x0A]"

definition hex_records ::
    "(nat \<Rightarrow> 8 word list \<Rightarrow> string) \<Rightarrow> nat \<Rightarrow> 16 word \<Rightarrow> 8 word list \<Rightarrow> string" where
  "hex_records record per_line base_addr data =
     concat (map (\<lambda>(i, d). record ((unat base_addr + per_line * i) mod 65536) d)
               (enumerate 0 (chunks per_line data)))"

section \<open>Verified properties\<close>

subsection \<open>Duration lookup\<close>

lemma strchr_letters:
  "strchr duration_letters ch =
     (if ch = CHR ''W'' then Some 0 else if ch = CHR ''H'' then Some 1
      else if ch = CHR ''Q'' then Some 2 else if ch = CHR ''E'' then Some 3
      else if ch = CHR ''S'' then Some 4 else if ch = CHR ''T'' then Some 5
      else if ch = NUL then Some 6 else None)"
  by (simp add: duration_letters_def)

lemma cur_cons: "input c = ch # rest \<Longrightarrow> cur c = ch"
  by (simp add: cur_def)

lemma cur_advance_modifier:
  "input c = ch # rest \<Longrightarrow>
   (cur (advance c) = CHR ''.'' \<longleftrightarrow> modifier_of rest = Dotted) \<and>
   (cur (advance c) = CHR ''3'' \<longleftrightarrow> modifier_of rest = Triplet)"
  by (cases rest) (auto simp: cur_def advance_def modifier_of_def)

lemma advance_past_modifier:
  "input c = ch # rest \<Longrightarrow> modifier_of rest \<noteq> Plain \<Longrightarrow>
   advance (advance c) = c\<lparr>input := after_modifier rest\<rparr>"
  by (simp add: advance_def after_modifier_def)

lemma advance_plain:
  "input c = ch # rest \<Longrightarrow> modifier_of rest = Plain \<Longrightarrow>
   advance c = c\<lparr>input := after_modifier rest\<rparr>"
  by (simp add: advance_def after_modifier_def)

lemma parse_duration_pairs:
  assumes inp: "input c = ch # rest" and nz: "ch \<noteq> NUL"
  shows "parse_duration c =
     (case map_of duration_pair_table (ch, modifier_of rest) of
        Some dc \<Rightarrow>
          Inr (Some (dc, time_table ! (unat dc - 1)), c\<lparr>input := after_modifier rest\<rparr>)
      | None \<Rightarrow>
          Inr (None, report_error
                 (if ch \<in> set duration_letters then c\<lparr>input := after_modifier rest\<rparr> else c)
                 ERR_ILLEGAL_DURATION))"
proof (cases "modifier_of rest")
  case Plain
  then show ?thesis
    using inp nz cur_advance_modifier [OF inp] advance_plain [OF inp]
    by (simp add: parse_duration_def strchr_letters cur_cons [OF inp] Let_def
          duration_pair_table_def code_table_def duration_letters_def)
next
  case Dotted
  then show ?thesis
    using inp nz cur_advance_modifier [OF inp] advance_past_modifier [OF inp]
    by (simp add: parse_duration_def strchr_letters cur_cons [OF inp] Let_def
          duration_pair_table_def code_table_def duration_letters_def)
next
  case Triplet
  then show ?thesis
    using inp nz cur_advance_modifier [OF inp] advance_past_modifier [OF inp]
    by (simp add: parse_duration_def strchr_letters cur_cons [OF inp] Let_def
          duration_pair_table_def code_table_def duration_letters_def)
qed

text \<open>
  Claim C4, as the code has it. For a note specification whose duration letter is a
  character of the line (the line does not end where the letter is expected),
  \<open>parse_duration\<close> resolves the (letter, modifier) pair through the fixed table: a
  pair of the table gives its duration code, which lies in 1..15, together with the
  time units of that code, and every pair outside the table is rejected with
  \<open>ERR_ILLEGAL_DURATION\<close>. Triplet-whole (W3) is outside the table;
  dotted-thirty-second (T.) is inside it, with duration code 13.
\<close>

theorem parse_duration_lookup:
  assumes "input c = ch # rest" and "ch \<noteq> NUL"
  shows "parse_duration c =
           (case map_of duration_pair_table (ch, modifier_of rest) of
              Some dc \<Rightarrow>
                Inr (Some (dc, time_table ! (unat dc - 1)),
                     c\<lparr>input := after_modifier rest\<rparr>)
            | None \<Rightarrow>
                Inr (None, report_error
                       (if ch \<in> set duration_letters
                        then c\<lparr>input := after_modifier rest\<rparr> else c)
                       ERR_ILLEGAL_DURATION))
         \<and> list_all (\<lambda>(k, dc). 1 \<le> dc \<and> dc \<le> 15) duration_pair_table
         \<and> map_of duration_pair_table (CHR ''W'', Triplet) = None
         \<and> map_of duration_pair_table (CHR ''T'', Dotted) = Some 13"
  using parse_duration_pairs [OF assms]
  by (simp add: duration_pair_table_def)

theorem parse_duration_lookup_witness:
  "input (state_with_input ''Q3 '') = CHR ''Q'' # ''3 ''
   \<and> CHR ''Q'' \<noteq> NUL
   \<and> parse_duration (state_with_input ''Q3 '') = Inr (Some (8, 32), state_with_input '' '')"
  using parse_duration_lookup [of "state_with_input ''Q3 ''" "CHR ''Q''" "''3 ''"]
  by (simp add: duration_pair_table_def modifier_of_def after_modifier_def time_table_def
        state_with_input_def)

text \<open>
  Against claim C4 as stated: the dotted thirty-second note T. is accepted, with
  duration code 13 and 9 time units, and no error is reported.
\<close>

theorem dotted_thirty_second_accepted:
  "parse_duration (state_with_input ''T.'') = Inr (Some (13, 9), state_with_input [])"
  by (simp add: parse_duration_def state_with_input_def duration_letters_def cur_def
        advance_def code_table_def time_table_def)

subsection \<open>Facts about bytes and 16-bit words\<close>

lemma unat8_lt: "unat (b :: 8 word) < 256"
  using unsigned_less [where 'a = nat and w = b] by simp

lemma unat16_lt: "unat (b :: 16 word) < 65536"
  using unsigned_less [where 'a = nat and w = b] by simp

lemma unat_ucast_8_16: "unat (ucast (b :: 8 word) :: 16 word) = unat b"
  using unat8_lt [of b] by (simp add: unsigned_ucast_eq take_bit_nat_eq_self_iff)

lemma drop8_ucast: "drop_bit 8 (ucast (b :: 8 word) :: 16 word) = 0"
  by (rule bit_word_eqI) (auto simp: bit_simps dest: bit_imp_le_length)

subsection \<open>Reading the byte code at its end\<close>

lemma read_code_byte_end:
  "code_ptr st \<ge> ni_code_size st \<Longrightarrow> read_code_byte st = (0, st)"
  by (simp add: read_code_byte_def)

lemma read_code_byte_in:
  "code_ptr st < ni_code_size st \<Longrightarrow>
   read_code_byte st = (object_code st ! code_ptr st, st\<lparr>code_ptr := code_ptr st + 1\<rparr>)"
  by (simp add: read_code_byte_def)

text \<open>
  Claim C10. When \<open>code_ptr\<close> is at or beyond \<open>code_size\<close>, \<open>read_code_byte\<close>
  returns 0 and leaves the state, \<open>code_ptr\<close> included, unchanged, and so does
  \<open>read_code_address\<close>, with the address 0. When one byte is left, the address read
  is that byte with a zero high byte, and \<open>code_ptr\<close> stops at \<open>code_size\<close>. No
  read indexes \<open>object_code\<close> outside its \<open>code_size\<close> bytes.
\<close>

theorem read_past_end:
  "(code_ptr st \<ge> ni_code_size st \<longrightarrow>
      read_code_byte st = (0, st) \<and> read_code_address st = (0, st))
   \<and> (code_ptr st + 1 = ni_code_size st \<longrightarrow>
        read_code_address st
          = (ucast (object_code st ! code_ptr st), st\<lparr>code_ptr := code_ptr st + 1\<rparr>)
        \<and> drop_bit 8 (fst (read_code_address st)) = 0)"
proof (intro conjI impI)
  assume "code_ptr st \<ge> ni_code_size st"
  then show "read_code_byte st = (0, st)" "read_code_address st = (0, st)"
    by (simp_all add: read_code_address_def read_code_byte_end)
next
  assume a: "code_ptr st + 1 = ni_code_size st"
  then have 1: "read_code_byte st = (object_code st ! code_ptr st, st\<lparr>code_ptr := code_ptr st + 1\<rparr>)"
    by (simp add: read_code_byte_in)
  have 2: "read_code_byte (st\<lparr>code_ptr := code_ptr st + 1\<rparr>) = (0, st\<lparr>code_ptr := code_ptr st + 1\<rparr>)"
    using a by (simp add: read_code_byte_def ni_code_size_def)
  show 3: "read_code_address st
          = (ucast (object_code st ! code_ptr st), st\<lparr>code_ptr := code_ptr st + 1\<rparr>)"
    using 1 2 by (simp add: read_code_address_def)
  have "drop_bit 8 (ucast (object_code st ! code_ptr st) :: 16 word) = 0"
    by (rule drop8_ucast)
  then show "drop_bit 8 (fst (read_code_address st)) = 0"
    by (simp add: 3)
qed

theorem read_past_end_witness:
  "code_ptr (state_at [0x40, 0x05] 1) + 1 = ni_code_size (state_at [0x40, 0x05] 1)
   \<and> read_code_address (state_at [0x40, 0x05] 1) = (5, state_at [0x40, 0x05] 2)
   \<and> ni_code_size (state_at [0x40, 0x05] 2) \<le> code_ptr (state_at [0x40, 0x05] 2)
   \<and> read_code_byte (state_at [0x40, 0x05] 2) = (0, state_at [0x40, 0x05] 2)"
  using read_past_end [of "state_at [0x40, 0x05] 1"] read_past_end [of "state_at [0x40, 0x05] 2"]
  by (simp add: state_at_def ni_code_size_def)

subsection \<open>The mixing sum\<close>

lemma mix_voices_frame:
  "j \<notin> set idxs \<Longrightarrow> i_voices (snd (mix_voices idxs st acc)) ! j = i_voices st ! j"
  by (induction idxs arbitrary: st acc) (auto simp: set_voice_def)

lemma contribution_le: "contribution st i \<le> 255"
proof -
  have "unat (w :: 8 word) \<le> 255" for w
    using unat8_lt [of w] by simp
  then show ?thesis by (simp add: contribution_def)
qed

lemma contribution_set_voice:
  "j \<noteq> i \<Longrightarrow> contribution (set_voice st i v) j = contribution st j"
  by (simp add: contribution_def set_voice_def num_wavetables_def)

lemma mix_voices_exact:
  "distinct idxs \<Longrightarrow> unat acc + sum_list (map (contribution st) idxs) < 65536 \<Longrightarrow>
   unat (fst (mix_voices idxs st acc)) = unat acc + sum_list (map (contribution st) idxs)"
proof (induction idxs arbitrary: st acc)
  case Nil
  then show ?case by simp
next
  case (Cons i idxs)
  let ?v = "i_voices st ! i"
  show ?case
  proof (cases "freq_increment ?v = 0 \<or> uint (wavetable_page ?v) \<ge> num_wavetables st")
    case True
    then have c0: "contribution st i = 0" by (simp add: contribution_def)
    from True Cons.prems Cons.IH [of acc st] show ?thesis
      by (auto simp: c0)
  next
    case False
    let ?s = "(wavetables st ! unat (wavetable_page ?v)) (phase_int ?v)"
    let ?st = "set_voice st i (advance_phase ?v)"
    from False have ci: "contribution st i = unat ?s" by (auto simp: contribution_def)
    have same: "map (contribution ?st) idxs = map (contribution st) idxs"
    proof (rule map_cong [OF refl])
      fix j assume "j \<in> set idxs"
      with Cons.prems(1) have "j \<noteq> i" by auto
      then show "contribution ?st j = contribution st j"
        by (rule contribution_set_voice)
    qed
    have bound: "unat acc + unat ?s < 65536"
      using Cons.prems(2) ci by simp
    have acc': "unat (acc + ucast ?s) = unat acc + unat ?s"
      using bound by (simp add: unat_word_ariths unat_ucast_8_16)
    have "unat (fst (mix_voices idxs ?st (acc + ucast ?s)))
            = unat (acc + ucast ?s) + sum_list (map (contribution ?st) idxs)"
      using Cons.prems ci by (intro Cons.IH) (auto simp: acc' same)
    with False show ?thesis
      by (auto simp: acc' same ci)
  qed
qed

lemma sum_list_contribution_le:
  "sum_list (map (contribution st) idxs) \<le> 255 * length idxs"
  by (induction idxs) (auto intro: add_mono contribution_le)

lemma exact_mix_le:
  assumes "num_active_voices st \<le> int MAX_VOICES"
  shows "exact_mix st \<le> 1020"
proof -
  have "exact_mix st \<le> 255 * length [0 ..< nat (num_active_voices st)]"
    unfolding exact_mix_def by (rule sum_list_contribution_le)
  also have "\<dots> \<le> 255 * 4" using assms by simp
  finally show ?thesis by simp
qed

text \<open>
  Claim C9. \<open>num_active_voices\<close> is 4 after \<open>init_interpreter\<close> and lies in 1..4
  after every \<open>set_num_voices\<close>. In a state with at most four mixed voices, the
  16-bit sum of \<open>generate_sample\<close> equals the exact sum of the wavetable values that
  the voices contribute, which is at most 1020, so it has not wrapped; and the
  emitted sample is that exact sum saturated at 255.
\<close>

theorem mixing_never_wraps:
  assumes "num_active_voices st \<le> int MAX_VOICES"
  shows "unat (fst (mix_voices [0 ..< nat (num_active_voices st)] st 0)) = exact_mix st
         \<and> exact_mix st \<le> 1020
         \<and> unat (fst (generate_sample st)) = min 255 (exact_mix st)
         \<and> num_active_voices (set_num_voices st n) \<le> int MAX_VOICES
         \<and> 1 \<le> num_active_voices (set_num_voices st n)"
proof -
  have le: "exact_mix st \<le> 1020" by (rule exact_mix_le [OF assms])
  have ex: "unat (fst (mix_voices [0 ..< nat (num_active_voices st)] st 0)) = exact_mix st"
    using le mix_voices_exact [of "[0 ..< nat (num_active_voices st)]" 0 st]
    by (simp add: exact_mix_def)
  obtain acc st1 where m: "mix_voices [0 ..< nat (num_active_voices st)] st 0 = (acc, st1)"
    by (cases "mix_voices [0 ..< nat (num_active_voices st)] st 0")
  with ex have a: "unat acc = exact_mix st" by simp
  have "unat (clamp_sample acc) = min 255 (unat acc)"
    by (auto simp: clamp_sample_def word_less_nat_alt unsigned_ucast_eq take_bit_nat_eq_self_iff
          min_def not_less)
  then have gs: "unat (fst (generate_sample st)) = min 255 (exact_mix st)"
    by (simp add: generate_sample_def m a)
  show ?thesis
    using le ex gs by (simp add: set_num_voices_def)
qed

theorem mixing_never_wraps_witness:
  "num_active_voices full_scale_state \<le> int MAX_VOICES
   \<and> exact_mix full_scale_state = 1020
   \<and> fst (generate_sample full_scale_state) = 255
   \<and> num_active_voices (set_num_voices full_scale_state 200) = 4
   \<and> num_active_voices (set_num_voices full_scale_state 0) = 1"
proof -
  have e: "exact_mix full_scale_state = 1020"
    by (simp add: exact_mix_def full_scale_state_def contribution_def num_wavetables_def
          init_voice_def upt_rec)
  have "unat (fst (generate_sample full_scale_state)) = 255"
    using mixing_never_wraps [of full_scale_state 0] e
    by (simp add: full_scale_state_def)
  then have "fst (generate_sample full_scale_state) = 255"
    by (simp add: word_unat_eq_iff)
  then show ?thesis
    using e by (simp add: set_num_voices_def full_scale_state_def)
qed

subsection \<open>The JUMP command\<close>

lemma read_code_byte_ptr:
  "snd (read_code_byte s) = s\<lparr>code_ptr := code_ptr (snd (read_code_byte s))\<rparr>"
  by (simp add: read_code_byte_def)

lemma read_code_address_ptr:
  "snd (read_code_address s) = s\<lparr>code_ptr := code_ptr (snd (read_code_address s))\<rparr>"
proof -
  obtain lo s1 where 1: "read_code_byte s = (lo, s1)" by (cases "read_code_byte s")
  obtain hi s2 where 2: "read_code_byte s1 = (hi, s2)" by (cases "read_code_byte s1")
  from read_code_byte_ptr [of s] 1 have s1: "s1 = s\<lparr>code_ptr := code_ptr s1\<rparr>" by simp
  from read_code_byte_ptr [of s1] 2 have s2: "s2 = s1\<lparr>code_ptr := code_ptr s2\<rparr>" by simp
  have "s2 = s\<lparr>code_ptr := code_ptr s2\<rparr>"
    by (subst s2, subst s1) simp
  then show ?thesis by (simp add: read_code_address_def 1 2)
qed

lemma read_code_address_code_ptr_upd:
  "(snd (read_code_address s))\<lparr>code_ptr := t\<rparr> = s\<lparr>code_ptr := t\<rparr>"
  by (subst read_code_address_ptr) simp

lemma read_code_byte_max_jumps:
  "read_code_byte (s\<lparr>max_jumps := m\<rparr>)
     = (fst (read_code_byte s), (snd (read_code_byte s))\<lparr>max_jumps := m\<rparr>)"
  by (simp add: read_code_byte_def ni_code_size_def)

lemma read_code_address_max_jumps:
  "read_code_address (s\<lparr>max_jumps := m\<rparr>)
     = (fst (read_code_address s), (snd (read_code_address s))\<lparr>max_jumps := m\<rparr>)"
  by (simp add: read_code_address_def read_code_byte_max_jumps split: prod.splits)

lemma read_code_address_size:
  "ni_code_size (snd (read_code_address s)) = ni_code_size s"
  by (subst read_code_address_ptr) (simp add: ni_code_size_def)

lemma handle_jump_command_cases:
  "handle_jump_command s =
     (if max_jumps s = 0 then (1, s)
      else if unat (fst (read_code_address s)) \<ge> ni_code_size s
      then (- 1, (snd (read_code_address s))\<lparr>max_jumps := max_jumps s - 1\<rparr>)
      else (0, s\<lparr>code_ptr := unat (fst (read_code_address s)),
                 max_jumps := max_jumps s - 1\<rparr>))"
proof -
  have "(snd (read_code_address s))\<lparr>max_jumps := m, code_ptr := t\<rparr>
          = s\<lparr>code_ptr := t, max_jumps := m\<rparr>" for m t
  proof -
    have "(snd (read_code_address s))\<lparr>max_jumps := m, code_ptr := t\<rparr>
            = ((snd (read_code_address s))\<lparr>code_ptr := t\<rparr>)\<lparr>max_jumps := m\<rparr>"
      by simp
    also have "\<dots> = (s\<lparr>code_ptr := t\<rparr>)\<lparr>max_jumps := m\<rparr>"
      by (simp only: read_code_address_code_ptr_upd)
    finally show ?thesis by simp
  qed
  then show ?thesis
    using read_code_address_size [of s]
    by (simp add: handle_jump_command_def read_code_address_max_jumps ni_code_size_def)
qed

lemma pure_control_jump:
  assumes "code_ptr st < ni_code_size st" and "object_code st ! code_ptr st = CMD_JUMP"
  shows "process_pure_control_commands st =
           (case handle_jump_command (st\<lparr>code_ptr := code_ptr st + 1\<rparr>) of
              (result, st1) \<Rightarrow>
                if result \<noteq> 0 then Some (result, st1)
                else process_pure_control_commands st1)"
  by (subst process_pure_control_commands.simps)
     (simp add: assms is_control_command_def is_long_note_command_def
        process_control_command_def)

text \<open>
  Claim C7. Let the interpreter run and let the byte at \<open>code_ptr\<close> be the JUMP
  opcode 0x40. If the jump budget \<open>max_jumps\<close> is zero, the interpreter stops with the
  success result 0. Otherwise the budget is decremented and the target is read: a
  target at or beyond \<open>code_size\<close> (the end-of-code address included) ends the
  interpreter with the fatal result -1, and every target below \<open>code_size\<close>
  (address 0 included) becomes the new \<open>code_ptr\<close>, from which interpretation goes on.
\<close>

theorem jump_opcode:
  assumes run: "running st" and ptr: "code_ptr st < ni_code_size st"
      and op: "object_code st ! code_ptr st = CMD_JUMP"
  shows "(max_jumps st = 0 \<longrightarrow>
            interpret_while st = Some (0, st\<lparr>code_ptr := code_ptr st + 1\<rparr>))
       \<and> (max_jumps st \<noteq> 0 \<and> jump_target st \<ge> ni_code_size st \<longrightarrow>
            interpret_while st
              = Some (- 1, (snd (read_code_address (st\<lparr>code_ptr := code_ptr st + 1\<rparr>)))
                             \<lparr>max_jumps := max_jumps st - 1\<rparr>))
       \<and> (max_jumps st \<noteq> 0 \<and> jump_target st < ni_code_size st \<longrightarrow>
            process_control_command (st\<lparr>code_ptr := code_ptr st + 1\<rparr>) CMD_JUMP
              = (0, st\<lparr>code_ptr := jump_target st, max_jumps := max_jumps st - 1\<rparr>)
            \<and> interpret_while st
                = interpret_while (st\<lparr>code_ptr := jump_target st,
                                      max_jumps := max_jumps st - 1\<rparr>))"
proof (intro conjI impI)
  let ?s = "st\<lparr>code_ptr := code_ptr st + 1\<rparr>"
  have sz: "ni_code_size ?s = ni_code_size st" by (simp add: ni_code_size_def)
  have pcc: "process_control_command ?s CMD_JUMP = handle_jump_command ?s"
    by (simp add: process_control_command_def is_long_note_command_def)
  {
    assume z: "max_jumps st = 0"
    then have "process_pure_control_commands st = Some (1, ?s)"
      by (simp add: pure_control_jump [OF ptr op] handle_jump_command_cases)
    then show "interpret_while st = Some (0, ?s)"
      using run ptr by (subst interpret_while.simps) simp
  }
  {
    assume a: "max_jumps st \<noteq> 0 \<and> jump_target st \<ge> ni_code_size st"
    then have "process_pure_control_commands st
                 = Some (- 1, (snd (read_code_address ?s))\<lparr>max_jumps := max_jumps st - 1\<rparr>)"
      by (simp add: pure_control_jump [OF ptr op] handle_jump_command_cases ni_code_size_def
            jump_target_def)
    then show "interpret_while st
                 = Some (- 1, (snd (read_code_address ?s))\<lparr>max_jumps := max_jumps st - 1\<rparr>)"
      using run ptr by (subst interpret_while.simps) simp
  }
  {
    assume a: "max_jumps st \<noteq> 0 \<and> jump_target st < ni_code_size st"
    let ?t = "st\<lparr>code_ptr := jump_target st, max_jumps := max_jumps st - 1\<rparr>"
    from a have h: "handle_jump_command ?s = (0, ?t)"
      by (simp add: handle_jump_command_cases ni_code_size_def jump_target_def)
    then show "process_control_command ?s CMD_JUMP = (0, ?t)"
      using pcc by simp
    have p: "process_pure_control_commands st = process_pure_control_commands ?t"
      using h by (simp add: pure_control_jump [OF ptr op])
    have t: "running ?t" "code_ptr ?t < ni_code_size ?t"
      using run a by (simp_all add: ni_code_size_def)
    show "interpret_while st = interpret_while ?t"
      using run ptr t
      by (subst interpret_while.simps, subst (2) interpret_while.simps) (simp add: p)
  }
qed

theorem jump_opcode_witness:
  "running (state_at [0x40, 0x03, 0x00] 0)
   \<and> code_ptr (state_at [0x40, 0x03, 0x00] 0) < ni_code_size (state_at [0x40, 0x03, 0x00] 0)
   \<and> object_code (state_at [0x40, 0x03, 0x00] 0) ! code_ptr (state_at [0x40, 0x03, 0x00] 0)
       = CMD_JUMP
   \<and> jump_target (state_at [0x40, 0x03, 0x00] 0) = ni_code_size (state_at [0x40, 0x03, 0x00] 0)
   \<and> interpret_while (state_at [0x40, 0x03, 0x00] 0)
       = Some (- 1, (state_at [0x40, 0x03, 0x00] 3)\<lparr>max_jumps := 0\<rparr>)
   \<and> jump_target (state_at [0x40, 0x00, 0x00] 0) = 0
   \<and> interpret_while (state_at [0x40, 0x00, 0x00] 0)
       = Some (0, (state_at [0x40, 0x00, 0x00] 1)\<lparr>max_jumps := 0\<rparr>)"
proof -
  have t3: "jump_target (state_at [0x40, 0x03, 0x00] 0) = 3"
    by (simp add: jump_target_def state_at_def read_code_address_def read_code_byte_def
          ni_code_size_def)
  have t0: "jump_target (state_at [0x40, 0x00, 0x00] 0) = 0"
    by (simp add: jump_target_def state_at_def read_code_address_def read_code_byte_def
          ni_code_size_def)
  have fatal: "interpret_while (state_at [0x40, 0x03, 0x00] 0)
                 = Some (- 1, (state_at [0x40, 0x03, 0x00] 3)\<lparr>max_jumps := 0\<rparr>)"
    using jump_opcode [of "state_at [0x40, 0x03, 0x00] 0"] t3
    by (simp add: state_at_def ni_code_size_def read_code_address_def read_code_byte_def)
  have again: "interpret_while (state_at [0x40, 0x00, 0x00] 0)
                = interpret_while ((state_at [0x40, 0x00, 0x00] 0)\<lparr>max_jumps := 0\<rparr>)"
    using jump_opcode [of "state_at [0x40, 0x00, 0x00] 0"] t0
    by (simp add: state_at_def ni_code_size_def)
  have halt: "interpret_while ((state_at [0x40, 0x00, 0x00] 0)\<lparr>max_jumps := 0\<rparr>)
                = Some (0, (state_at [0x40, 0x00, 0x00] 1)\<lparr>max_jumps := 0\<rparr>)"
    using jump_opcode [of "(state_at [0x40, 0x00, 0x00] 0)\<lparr>max_jumps := 0\<rparr>"]
    by (simp add: state_at_def ni_code_size_def)
  show ?thesis
    using t3 t0 fatal again halt by (simp add: state_at_def ni_code_size_def)
qed

subsection \<open>Closing an event\<close>

lemma min_fold:
  "foldl (\<lambda>m v. if duration v \<noteq> INACTIVE_VOICE_DURATION \<and> duration v < m then duration v else m) a vs = r \<Longrightarrow>
   r \<le> a
   \<and> (r = a \<or> (\<exists>v \<in> set vs. duration v \<noteq> INACTIVE_VOICE_DURATION \<and> duration v = r))
   \<and> (\<forall>v \<in> set vs. duration v \<noteq> INACTIVE_VOICE_DURATION \<longrightarrow> r \<le> duration v)"
proof (induction vs arbitrary: a)
  case Nil
  then show ?case by simp
next
  case (Cons x vs)
  let ?a = "if duration x \<noteq> INACTIVE_VOICE_DURATION \<and> duration x < a then duration x else a"
  from Cons.prems have "foldl (\<lambda>m v. if duration v \<noteq> INACTIVE_VOICE_DURATION \<and> duration v < m then duration v else m) ?a vs = r"
    by simp
  from Cons.IH [OF this] show ?case
    by (auto split: if_splits)
qed

lemma active_lt: "d \<noteq> (0xFF :: 8 word) \<Longrightarrow> d < 0xFF"
proof -
  assume "d \<noteq> 0xFF"
  moreover have "d \<le> 0xFF" using unat8_lt [of d] by (simp add: word_le_nat_alt)
  ultimately show ?thesis by simp
qed

lemma min_duration_props:
  assumes "any_voice_active c"
  shows "(\<exists>v \<in> set (voices c). duration v \<noteq> INACTIVE_VOICE_DURATION
            \<and> duration v = calculate_min_voice_duration c)
       \<and> (\<forall>v \<in> set (voices c). duration v \<noteq> INACTIVE_VOICE_DURATION
            \<longrightarrow> calculate_min_voice_duration c \<le> duration v)"
proof -
  let ?m = "calculate_min_voice_duration c"
  have f: "?m \<le> 0xFF
     \<and> (?m = 0xFF \<or> (\<exists>v \<in> set (voices c). duration v \<noteq> INACTIVE_VOICE_DURATION \<and> duration v = ?m))
     \<and> (\<forall>v \<in> set (voices c). duration v \<noteq> INACTIVE_VOICE_DURATION \<longrightarrow> ?m \<le> duration v)"
    using min_fold [of "0xFF" "voices c" ?m]
    by (simp add: calculate_min_voice_duration_def)
  from assms obtain w where w: "w \<in> set (voices c)" "duration w \<noteq> 0xFF"
    by (auto simp: any_voice_active_def list_ex_iff)
  with f have "?m \<le> duration w" by simp
  moreover have "duration w < 0xFF" using w(2) by (rule active_lt)
  ultimately have "?m \<noteq> 0xFF" by auto
  with f show ?thesis by simp
qed

text \<open>
  Claim C3, as the code has it. \<open>complete_event\<close> is what \<open>process_note_event\<close>
  calls when the last voice that needed a note has received one. In a state with an
  active voice, at least one active voice holds the minimum duration (several may),
  and the close subtracts that minimum from every active voice without wrapping:
  the voices that held the minimum are left with remaining duration 0, which makes
  them the voices that receive the notes of the next event, every other active
  voice is left with a strictly positive duration, inactive voices are unchanged,
  and \<open>event_building\<close> is cleared.
\<close>

theorem event_close_durations:
  assumes "any_voice_active c"
  shows "(\<exists>v \<in> set (voices c). duration v \<noteq> INACTIVE_VOICE_DURATION
            \<and> duration v = calculate_min_voice_duration c)
       \<and> length (voices (complete_event c)) = length (voices c)
       \<and> (\<forall>i < length (voices c).
            (duration (voices c ! i) = INACTIVE_VOICE_DURATION
               \<longrightarrow> voices (complete_event c) ! i = voices c ! i)
          \<and> (duration (voices c ! i) \<noteq> INACTIVE_VOICE_DURATION
               \<longrightarrow> unat (duration (voices (complete_event c) ! i))
                     = unat (duration (voices c ! i)) - unat (calculate_min_voice_duration c)
                 \<and> (duration (voices c ! i) = calculate_min_voice_duration c
                      \<longrightarrow> duration (voices (complete_event c) ! i) = 0)
                 \<and> (duration (voices c ! i) \<noteq> calculate_min_voice_duration c
                      \<longrightarrow> 0 < duration (voices (complete_event c) ! i)
                          \<and> duration (voices (complete_event c) ! i) \<noteq> INACTIVE_VOICE_DURATION)))
       \<and> \<not> event_building (complete_event c)"
proof -
  let ?m = "calculate_min_voice_duration c"
  note mp = min_duration_props [OF assms]
  have len: "length (voices (complete_event c)) = length (voices c)"
    by (simp add: complete_event_def subtract_duration_from_voices_def)
  have eb: "\<not> event_building (complete_event c)"
    by (simp add: complete_event_def)
  have each: "(duration (voices c ! i) = INACTIVE_VOICE_DURATION
               \<longrightarrow> voices (complete_event c) ! i = voices c ! i)
          \<and> (duration (voices c ! i) \<noteq> INACTIVE_VOICE_DURATION
               \<longrightarrow> unat (duration (voices (complete_event c) ! i))
                     = unat (duration (voices c ! i)) - unat ?m
                 \<and> (duration (voices c ! i) = ?m
                      \<longrightarrow> duration (voices (complete_event c) ! i) = 0)
                 \<and> (duration (voices c ! i) \<noteq> ?m
                      \<longrightarrow> 0 < duration (voices (complete_event c) ! i)
                          \<and> duration (voices (complete_event c) ! i) \<noteq> INACTIVE_VOICE_DURATION))"
    if i: "i < length (voices c)" for i
  proof (cases "duration (voices c ! i) = INACTIVE_VOICE_DURATION")
    case True
    then show ?thesis using i
      by (simp add: complete_event_def subtract_duration_from_voices_def)
  next
    case False
    let ?d = "duration (voices c ! i)"
    have d': "duration (voices (complete_event c) ! i) = ?d - ?m"
      using i False by (simp add: complete_event_def subtract_duration_from_voices_def)
    have le: "?m \<le> ?d" using mp i False by (auto simp: nth_mem)
    then have u: "unat (?d - ?m) = unat ?d - unat ?m"
      by (simp add: unat_sub)
    have lt: "unat ?d < 255"
      using active_lt [of ?d] False by (simp add: word_less_nat_alt)
    have pos: "?d \<noteq> ?m \<Longrightarrow> 0 < ?d - ?m \<and> ?d - ?m \<noteq> 0xFF"
      using le u lt by (auto simp: word_less_nat_alt word_le_nat_alt word_unat_eq_iff)
    show ?thesis
      using False d' u pos by simp
  qed
  show ?thesis
    using mp len eb each by blast
qed

theorem event_close_durations_witness:
  "any_voice_active state_before_close
   \<and> calculate_min_voice_duration state_before_close = 24
   \<and> map duration (voices (complete_event state_before_close)) = [24, 0, 0xFF, 0xFF]"
  using event_close_durations [of state_before_close]
  by (simp add: state_before_close_def any_voice_active_def calculate_min_voice_duration_def
        complete_event_def subtract_duration_from_voices_def)

text \<open>
  Against claim C3 as stated: after the two-voice event of the line below has been
  closed (\<open>event_building\<close> is false), both active voices have remaining duration 0,
  and both held the minimum duration 48 before the close.
\<close>

theorem closed_event_leaves_zero_durations:
  "process_file (init_compiler 0) ['' ACT 1,2 C4Q E4Q'']
     = Some (Inr \<lparr>base_address = 0, input = [], line_number = 1, symbols = [],
          code = [0x90, 0x00, 0x90, 0x01, 0x60, 0x4A, 0x06, 0x60, 0x52, 0x06],
          event_building = False, voice_ptr = 1,
          voices =
            [\<lparr>waveform = 0, duration = 0, pitch = 37, octave = 4, use_absolute = False\<rparr>,
             \<lparr>waveform = 0, duration = 0, pitch = 41, octave = 4, use_absolute = False\<rparr>,
             \<lparr>waveform = 0, duration = 0xFF, pitch = 0, octave = 0, use_absolute = True\<rparr>,
             \<lparr>waveform = 0, duration = 0xFF, pitch = 0, octave = 0, use_absolute = True\<rparr>],
          sub_address = 0, end_flag = False, error_flag = False,
          diagnostics = []\<rparr>)"
  by code_simp

subsection \<open>Short and long note encoding\<close>

lemma code_report_error [simp]: "code (report_error c e) = code c"
  by (simp add: report_error_def)

lemma voices_report_error [simp]: "voices (report_error c e) = voices c"
  by (simp add: report_error_def)

lemma code_upd_voice [simp]: "code (upd_voice c i f) = code c"
  by (simp add: upd_voice_def)

lemma code_complete_event [simp]: "code (complete_event c) = code c"
  by (simp add: complete_event_def subtract_duration_from_voices_def)

lemma code_emit_byte:
  "code (emit_byte c b) = code c @ take (MAX_CODE_SIZE - code_size c) [b]"
  by (simp add: emit_byte_def code_size_def)

lemma voices_emit_byte [simp]: "voices (emit_byte c b) = voices c"
  by (simp add: emit_byte_def)

lemma code_emit_rest:
  "code (emit_rest c dc) = code c @ take (MAX_CODE_SIZE - code_size c) [0x80 OR dc]"
  by (simp add: emit_rest_def code_emit_byte)

lemma code_emit_short_note:
  "code (emit_short_note c d dc)
     = code c @ take (MAX_CODE_SIZE - code_size c) [word_of_int (push_bit 4 (d AND 0x0F) OR uint dc)]"
  by (simp add: emit_short_note_def code_emit_byte)

lemma code_emit_long_note:
  "code (emit_long_note c p w dc)
     = code c @ take (MAX_CODE_SIZE - code_size c)
         [0x60, word_of_int (p * 2), word_of_int (push_bit 4 (uint w) OR uint dc)]"
proof -
  consider "code_size c \<ge> 8192" | "code_size c = 8191" | "code_size c = 8190" | "code_size c < 8190"
    by linarith
  then show ?thesis
    by cases (simp_all add: emit_long_note_def emit_byte_def code_size_def)
qed

lemma find_next_props:
  assumes "find_next_voice_needing_note c s = v" and "v < NUM_VOICES"
  shows "duration (voices c ! v) = 0"
proof -
  from assms obtain i where "List.find (\<lambda>i. duration (voices c ! i) = 0) [s ..< NUM_VOICES] = Some i" "i = v"
    by (auto simp: find_next_voice_needing_note_def split: option.splits)
  then show ?thesis by (auto simp: find_Some_iff)
qed

lemma find_next_voices:
  "voices c' = voices c \<Longrightarrow> find_next_voice_needing_note c' s = find_next_voice_needing_note c s"
  by (simp add: find_next_voice_needing_note_def)

lemma code_process_pitched_note:
  assumes "v < length (voices c)"
  shows "code (process_pitched_note c v nt)
     = code c @ take (MAX_CODE_SIZE - code_size c)
         (if \<not> use_absolute (voices c ! v) \<and> pitch (voices c ! v) \<noteq> 0
             \<and> - 7 \<le> resolve_pitch c v nt - uint (pitch (voices c ! v))
             \<and> resolve_pitch c v nt - uint (pitch (voices c ! v)) \<le> 7
          then [word_of_int (push_bit 4
                  ((resolve_pitch c v nt - uint (pitch (voices c ! v))) AND 0x0F)
                  OR uint (duration_code nt))]
          else [0x60, word_of_int (resolve_pitch c v nt * 2),
                word_of_int (push_bit 4 (uint (waveform (voices c ! v)))
                  OR uint (duration_code nt))])"
proof -
  define c3 where "c3 =
     (if is_valid_pitch (uint (resolve_octave c v nt) * 12 + uint (n_pitch nt) - 12)
      then upd_voice (if n_octave nt = 0 \<and> octave (voices c ! v) = 0
                      then report_error c ERR_PITCH_OUT_OF_RANGE else c) v
             (\<lambda>x. x\<lparr>octave := resolve_octave c v nt\<rparr>)
      else report_error
             (upd_voice (if n_octave nt = 0 \<and> octave (voices c ! v) = 0
                         then report_error c ERR_PITCH_OUT_OF_RANGE else c) v
                (\<lambda>x. x\<lparr>octave := resolve_octave c v nt\<rparr>))
             ERR_PITCH_OUT_OF_RANGE)"
  define p where "p = resolve_pitch c v nt"
  define q where "q = uint (pitch (voices c ! v))"
  have vs: "voices c3 ! v = (voices c ! v)\<lparr>octave := resolve_octave c v nt\<rparr>"
    using assms by (simp add: c3_def upd_voice_def)
  have cd: "code c3 = code c" "code_size c3 = code_size c"
    by (simp_all add: c3_def code_size_def)
  have sh: "should_use_short_encoding c3 v p
              \<longleftrightarrow> \<not> use_absolute (voices c ! v) \<and> pitch (voices c ! v) \<noteq> 0
                  \<and> - 7 \<le> p - q \<and> p - q \<le> 7"
    unfolding should_use_short_encoding_def vs q_def by auto
  have pq: "uint (pitch (voices c3 ! v)) = q"
    and wq: "waveform (voices c3 ! v) = waveform (voices c ! v)"
    unfolding vs q_def by simp_all
  have ppn: "code (process_pitched_note c v nt)
          = code (if should_use_short_encoding c3 v p
                  then emit_short_note c3 (p - uint (pitch (voices c3 ! v))) (duration_code nt)
                  else emit_long_note c3 p (waveform (voices c3 ! v)) (duration_code nt))"
    by (simp add: process_pitched_note_def Let_def c3_def p_def)
  define S where "S \<longleftrightarrow> \<not> use_absolute (voices c ! v) \<and> pitch (voices c ! v) \<noteq> 0
                  \<and> - 7 \<le> p - q \<and> p - q \<le> 7"
  have goal: "code (process_pitched_note c v nt)
     = code c @ take (MAX_CODE_SIZE - code_size c)
         (if S then [word_of_int (push_bit 4 ((p - q) AND 0x0F) OR uint (duration_code nt))]
          else [0x60, word_of_int (p * 2),
                word_of_int (push_bit 4 (uint (waveform (voices c ! v)))
                  OR uint (duration_code nt))])"
  proof (cases S)
    case True
    with sh have "should_use_short_encoding c3 v p" by (simp add: S_def)
    with True show ?thesis
      unfolding ppn
      by (simp add: code_emit_short_note cd pq del: MAX_CODE_SIZE_def)
  next
    case False
    with sh have "\<not> should_use_short_encoding c3 v p" by (simp add: S_def)
    with False show ?thesis
      unfolding ppn
      by (simp add: code_emit_long_note cd wq del: MAX_CODE_SIZE_def)
  qed
  show ?thesis
    using goal unfolding S_def p_def q_def .
qed

text \<open>
  Claim C1. Let \<open>process_note_event\<close> place the note on voice \<open>v\<close>, the first voice
  from \<open>voice_ptr\<close> on (from 0 when a new event starts) that needs a note. The bytes
  are emitted through \<open>emit_byte\<close>, which appends to the image up to its cap of
  \<open>MAX_CODE_SIZE\<close> bytes. A rest emits the single byte \<open>0x80 | duration_code\<close>,
  whatever the state of the voice. A pitched note on a voice whose \<open>use_absolute\<close> is
  false and whose last pitch \<open>q\<close> is not 0 emits, for the new absolute pitch \<open>p\<close>,
  the single byte \<open>((p - q) & 0x0F) << 4 | duration_code\<close> when \<open>p - q\<close> lies in
  -7..7, and otherwise the three bytes \<open>0x60\<close>, \<open>p * 2\<close>,
  \<open>(waveform << 4) | duration_code\<close>.
\<close>

theorem note_encoding:
  assumes len: "length (voices c) = NUM_VOICES"
      and v: "v = find_next_voice_needing_note c (if event_building c then voice_ptr c else 0)"
      and found: "v < NUM_VOICES"
  shows "(n_pitch nt = 0 \<longrightarrow>
            (\<exists>c'. process_note_event c nt = Inr c'
                \<and> code c' = code c @ take (MAX_CODE_SIZE - code_size c)
                                      [0x80 OR duration_code nt]))
       \<and> (n_pitch nt \<noteq> 0 \<and> \<not> use_absolute (voices c ! v) \<and> pitch (voices c ! v) \<noteq> 0 \<longrightarrow>
            (\<exists>c'. process_note_event c nt = Inr c'
                \<and> code c' = code c @ take (MAX_CODE_SIZE - code_size c)
                    (if - 7 \<le> resolve_pitch c v nt - uint (pitch (voices c ! v))
                        \<and> resolve_pitch c v nt - uint (pitch (voices c ! v)) \<le> 7
                     then [word_of_int (push_bit 4
                             ((resolve_pitch c v nt - uint (pitch (voices c ! v))) AND 0x0F)
                             OR uint (duration_code nt))]
                     else [0x60, word_of_int (resolve_pitch c v nt * 2),
                           word_of_int (push_bit 4 (uint (waveform (voices c ! v)))
                             OR uint (duration_code nt))])))"
proof -
  let ?c = "if event_building c then c else c\<lparr>voice_ptr := 0, event_building := True\<rparr>"
  have vc: "voices ?c = voices c" and cc: "code ?c = code c" by simp_all
  have v': "find_next_voice_needing_note ?c (voice_ptr ?c) = v"
    using v by (simp add: find_next_voice_needing_note_def)
  have d0: "duration (voices c ! v) = 0"
    using v found by (intro find_next_props) simp_all
  have "voices c ! v \<in> set (voices c)" using len found by simp
  with d0 have act: "any_voice_active c"
    by (auto simp: any_voice_active_def list_ex_iff intro!: bexI [of _ "voices c ! v"])
  let ?c1 = "if n_voice nt \<noteq> 0 \<and> int v \<noteq> uint (n_voice nt) - 1
             then report_error ?c ERR_VOICE_MISMATCH else ?c"
  have c1: "voices ?c1 = voices c" "code ?c1 = code c" by simp_all
  let ?c2 = "if n_pitch nt = 0 then emit_rest ?c1 (duration_code nt)
             else process_pitched_note ?c1 v nt"
  let ?c3 = "upd_voice ?c2 v (\<lambda>x. x\<lparr>duration := duration_time nt, use_absolute := False\<rparr>)"
  have pne: "process_note_event c nt
        = (if find_next_voice_needing_note ?c3 (v + 1) \<ge> NUM_VOICES
           then Inr (complete_event ?c3) else Inr (?c3\<lparr>voice_ptr := v + 1\<rparr>))"
    using act found v'
    by (simp add: process_note_event_def Let_def)
  have res: "\<exists>c'. process_note_event c nt = Inr c' \<and> code c' = code ?c2"
    by (simp add: pne)
  have rp: "resolve_pitch ?c1 v nt = resolve_pitch c v nt"
    by (simp add: resolve_pitch_def resolve_octave_def)
  have sz: "code_size ?c1 = code_size c" by (simp add: code_size_def)
  show ?thesis
  proof (intro conjI impI)
    assume "n_pitch nt = 0"
    then have "code ?c2 = code c @ take (MAX_CODE_SIZE - code_size c) [0x80 OR duration_code nt]"
      using c1 sz by (simp add: code_emit_rest del: MAX_CODE_SIZE_def)
    with res show "\<exists>c'. process_note_event c nt = Inr c'
                \<and> code c' = code c @ take (MAX_CODE_SIZE - code_size c)
                                      [0x80 OR duration_code nt]"
      by simp
  next
    assume a: "n_pitch nt \<noteq> 0 \<and> \<not> use_absolute (voices c ! v) \<and> pitch (voices c ! v) \<noteq> 0"
    have "v < length (voices ?c1)" using len found by simp
    from code_process_pitched_note [OF this, of nt] a
    have "code ?c2 = code c @ take (MAX_CODE_SIZE - code_size c)
                    (if - 7 \<le> resolve_pitch c v nt - uint (pitch (voices c ! v))
                        \<and> resolve_pitch c v nt - uint (pitch (voices c ! v)) \<le> 7
                     then [word_of_int (push_bit 4
                             ((resolve_pitch c v nt - uint (pitch (voices c ! v))) AND 0x0F)
                             OR uint (duration_code nt))]
                     else [0x60, word_of_int (resolve_pitch c v nt * 2),
                           word_of_int (push_bit 4 (uint (waveform (voices c ! v)))
                             OR uint (duration_code nt))])"
      using c1 sz rp by (simp del: MAX_CODE_SIZE_def)
    with res show "\<exists>c'. process_note_event c nt = Inr c'
                \<and> code c' = code c @ take (MAX_CODE_SIZE - code_size c)
                    (if - 7 \<le> resolve_pitch c v nt - uint (pitch (voices c ! v))
                        \<and> resolve_pitch c v nt - uint (pitch (voices c ! v)) \<le> 7
                     then [word_of_int (push_bit 4
                             ((resolve_pitch c v nt - uint (pitch (voices c ! v))) AND 0x0F)
                             OR uint (duration_code nt))]
                     else [0x60, word_of_int (resolve_pitch c v nt * 2),
                           word_of_int (push_bit 4 (uint (waveform (voices c ! v)))
                             OR uint (duration_code nt))])"
      by simp
  qed
qed

theorem note_encoding_witness:
  "length (voices state_after_c4q) = NUM_VOICES
   \<and> (0 :: nat) < NUM_VOICES
   \<and> find_next_voice_needing_note state_after_c4q
         (if event_building state_after_c4q then voice_ptr state_after_c4q else 0) = 0
   \<and> map_sum id code (process_note_event state_after_c4q rest_q)
       = Inr [0x90, 0x00, 0x60, 0x4A, 0x06, 0x86]
   \<and> map_sum id code (process_note_event state_after_c4q note_d4q)
       = Inr [0x90, 0x00, 0x60, 0x4A, 0x06, 0x26]
   \<and> map_sum id code (process_note_event state_after_c4q note_c6q)
       = Inr [0x90, 0x00, 0x60, 0x4A, 0x06, 0x60, 0x7A, 0x06]"
proof -
  have f: "find_next_voice_needing_note state_after_c4q
             (if event_building state_after_c4q then voice_ptr state_after_c4q else 0) = 0"
    by (simp add: find_next_voice_needing_note_def state_after_c4q_def upt_rec)
  have l: "length (voices state_after_c4q) = NUM_VOICES"
    by (simp add: state_after_c4q_def)
  have r: "map_sum id code (process_note_event state_after_c4q rest_q)
             = Inr [0x90, 0x00, 0x60, 0x4A, 0x06, 0x86]"
    using note_encoding [of state_after_c4q 0 rest_q] f l
    by (auto simp: state_after_c4q_def rest_q_def code_size_def)
  have d: "map_sum id code (process_note_event state_after_c4q note_d4q)
             = Inr [0x90, 0x00, 0x60, 0x4A, 0x06, 0x26]"
    using note_encoding [of state_after_c4q 0 note_d4q] f l
    by (auto simp: state_after_c4q_def note_d4q_def code_size_def resolve_pitch_def
          resolve_octave_def is_valid_pitch_def)
  have c: "map_sum id code (process_note_event state_after_c4q note_c6q)
             = Inr [0x90, 0x00, 0x60, 0x4A, 0x06, 0x60, 0x7A, 0x06]"
    using note_encoding [of state_after_c4q 0 note_c6q] f l
    by (auto simp: state_after_c4q_def note_c6q_def code_size_def resolve_pitch_def
          resolve_octave_def is_valid_pitch_def)
  show ?thesis using f l r d c by simp
qed

subsection \<open>Compiling concrete programs\<close>

lemma scenario_c4q_d4q:
  "process_file (init_compiler base) [''1 TPO 32 ACT 1 C4Q D4Q END'']
     = Some (Inr \<lparr>base_address = base, input = [], line_number = 1, symbols = [(1, base)],
          code = [0x10, 0x20, 0x90, 0x00, 0x60, 0x4A, 0x06, 0x26, 0x00],
          event_building = False, voice_ptr = 0,
          voices =
            [\<lparr>waveform = 0, duration = 0, pitch = 39, octave = 4, use_absolute = False\<rparr>,
             \<lparr>waveform = 0, duration = 0xFF, pitch = 0, octave = 0, use_absolute = True\<rparr>,
             \<lparr>waveform = 0, duration = 0xFF, pitch = 0, octave = 0, use_absolute = True\<rparr>,
             \<lparr>waveform = 0, duration = 0xFF, pitch = 0, octave = 0, use_absolute = True\<rparr>],
          sub_address = 0, end_flag = True, error_flag = False,
          diagnostics = []\<rparr>)"
  by (code_simp, use unsigned_less [where 'a = int and w = base] in simp)

text \<open>
  Claim C5, as the code has it. Compiling the program of one line
  \<open>"1 TPO 32 ACT 1 C4Q D4Q END"\<close> at any base address ends without error, records
  symbol 1 at address \<open>base_address + 0\<close>, and emits the second note D4Q as the
  single short-form byte 0x26: pitch delta +2 in the high nibble and the duration
  code 6 of a quarter note in the low nibble.
\<close>

theorem compile_c4q_d4q:
  "\<exists>c. process_file (init_compiler base) [''1 TPO 32 ACT 1 C4Q D4Q END''] = Some (Inr c)
       \<and> \<not> error_flag c
       \<and> symbols c = [(1, base + 0)]
       \<and> code c = [0x10, 0x20, 0x90, 0x00, 0x60, 0x4A, 0x06, 0x26, 0x00]
       \<and> drop_bit 4 (code c ! 7) = 2
       \<and> code c ! 7 AND 0x0F = 6"
  unfolding scenario_c4q_d4q by simp

theorem compile_c4q_d4q_witness:
  "compiled_code 0x0200 [''1 TPO 32 ACT 1 C4Q D4Q END'']
     = Some [0x10, 0x20, 0x90, 0x00, 0x60, 0x4A, 0x06, 0x26, 0x00]"
  using compile_c4q_d4q [of "0x0200"]
  unfolding compiled_code_def by (auto simp del: process_file.simps)

text \<open>
  Against claim C5 as stated: the byte emitted for D4Q is 0x26, not 0x27.
\<close>

theorem d4q_byte_is_not_0x27:
  "compiled_code 0 [''1 TPO 32 ACT 1 C4Q D4Q END'']
     = Some [0x10, 0x20, 0x90, 0x00, 0x60, 0x4A, 0x06, 0x26, 0x00]
   \<and> the (compiled_code 0 [''1 TPO 32 ACT 1 C4Q D4Q END'']) ! 7 \<noteq> 0x27"
  unfolding compiled_code_def scenario_c4q_d4q by simp

text \<open>
  For claim C6: a source file whose only line is \<open>" SUB"\<close>, with neither \<open>ESB\<close> nor
  \<open>END\<close>, compiles without error, and the object code handed to the writer is the
  jump with its placeholder operand \<open>00 00\<close> still in place.
\<close>

theorem sub_without_end_compiles:
  "compiled_code 0 ['' SUB''] = Some [0x40, 0x00, 0x00]"
  by code_simp

subsection \<open>Rendering a single note\<close>

lemma and_FF: "(w :: 16 word) AND 0xFF = take_bit 8 w"
  by (simp add: take_bit_eq_mask mask_eq_exp_minus_1)

lemma recombine_phase:
  "(push_bit 8 (ucast (ucast (drop_bit 8 ph AND 0xFF) :: 8 word))
      OR ucast (ucast (ph AND 0xFF) :: 8 word) :: 16 word) = ph"
  unfolding and_FF
  by (rule bit_word_eqI) (auto simp: bit_simps dest: bit_imp_le_length)

lemma high_byte: "(ucast (drop_bit 8 (ph :: 16 word) AND 0xFF) :: 8 word) = ucast (drop_bit 8 ph)"
  unfolding and_FF
  by (rule bit_word_eqI) (auto simp: bit_simps dest: bit_imp_le_length)

lemma clamp_sample_byte: "clamp_sample (0 + ucast (b :: 8 word)) = b"
proof -
  have "\<not> (ucast b :: 16 word) > 255"
    using unat8_lt [of b] by (simp add: word_less_nat_alt unat_ucast_8_16)
  moreover have "(ucast (ucast b :: 16 word) :: 8 word) = b"
    by (rule bit_word_eqI) (auto simp: bit_simps dest: bit_imp_le_length)
  ultimately show ?thesis by (simp add: clamp_sample_def)
qed

lemma generate_sample_tone:
  assumes "bank \<noteq> []"
  shows "generate_sample (tone_state bank jumps ph out)
           = ((bank ! 0) (ucast (drop_bit 8 ph)), tone_state bank jumps (ph + 0x01CD) out)"
proof -
  have nw: "\<not> 0 \<ge> num_wavetables (tone_state bank jumps ph out)"
    using assms by (simp add: num_wavetables_def tone_state_def)
  have up: "[0 ..< nat (num_active_voices (tone_state bank jumps ph out))] = [0, 1, 2, 3]"
    by (simp add: tone_state_def upt_rec)
  have adv: "advance_phase
               \<lparr>phase_frac = ucast (ph AND 0xFF), phase_int = ucast (drop_bit 8 ph AND 0xFF),
                wavetable_page = 0, note_offset = 0x18, freq_increment = 0x01CD, v_duration = 72\<rparr>
             = \<lparr>phase_frac = ucast ((ph + 0x01CD) AND 0xFF),
                phase_int = ucast (drop_bit 8 (ph + 0x01CD) AND 0xFF),
                wavetable_page = 0, note_offset = 0x18, freq_increment = 0x01CD, v_duration = 72\<rparr>"
    by (simp add: advance_phase_def recombine_phase Let_def)
  show ?thesis
    unfolding generate_sample_def up
    using nw adv
    by (simp add: tone_state_def set_voice_def init_voice_def num_wavetables_def
          clamp_sample_byte [simplified] high_byte)
qed

lemma tone_samples_Suc:
  "tone_samples bank ph (Suc n)
     = (bank ! 0) (ucast (drop_bit 8 ph)) # tone_samples bank (ph + 0x01CD) n"
proof -
  have "[0 ..< Suc n] = 0 # map Suc [0 ..< n]"
    by (simp add: upt_conv_Cons map_Suc_upt del: upt_Suc)
  then show ?thesis
    by (simp add: tone_samples_def comp_def algebra_simps del: upt_Suc)
qed

lemma write_tone:
  "write_audio_buffer (tone_state bank jumps ph out) buf = tone_state bank jumps ph (out @ buf)"
  by (simp add: write_audio_buffer_def tone_state_def)

lemma play_loop_tone:
  assumes "bank \<noteq> []"
  shows "\<exists>out' buf'. play_loop n (tone_state bank jumps ph out) buf
                         = (tone_state bank jumps (ph + word_of_nat n * 0x01CD) out', buf')
                     \<and> out' @ buf' = out @ buf @ tone_samples bank ph n"
proof (induction n arbitrary: ph out buf)
  case 0
  then show ?case by (simp add: tone_samples_def)
next
  case (Suc n)
  let ?s = "(bank ! 0) (ucast (drop_bit 8 ph))"
  have run: "running (tone_state bank jumps ph out)" by (simp add: tone_state_def)
  have ph: "ph + 0x01CD + word_of_nat n * 0x01CD = ph + word_of_nat (Suc n) * 0x01CD"
    by (simp add: algebra_simps)
  show ?case
  proof (cases "length (buf @ [?s]) \<ge> BUFFER_FRAMES")
    case True
    from Suc.IH [of "ph + 0x01CD" "out @ buf @ [?s]" "[]"]
    obtain out' buf' where
      "play_loop n (tone_state bank jumps (ph + 0x01CD) (out @ buf @ [?s])) []
         = (tone_state bank jumps (ph + 0x01CD + word_of_nat n * 0x01CD) out', buf')"
      "out' @ buf' = (out @ buf @ [?s]) @ [] @ tone_samples bank (ph + 0x01CD) n"
      by blast
    with True run show ?thesis
      unfolding ph
      by (auto simp add: generate_sample_tone [OF assms] write_tone tone_samples_Suc
            simp del: BUFFER_FRAMES_def)
  next
    case False
    from Suc.IH [of "ph + 0x01CD" out "buf @ [?s]"]
    obtain out' buf' where
      "play_loop n (tone_state bank jumps (ph + 0x01CD) out) (buf @ [?s])
         = (tone_state bank jumps (ph + 0x01CD + word_of_nat n * 0x01CD) out', buf')"
      "out' @ buf' = out @ (buf @ [?s]) @ tone_samples bank (ph + 0x01CD) n"
      by blast
    with False run show ?thesis
      unfolding ph
      by (auto simp add: generate_sample_tone [OF assms] tone_samples_Suc
            simp del: BUFFER_FRAMES_def)
  qed
qed

lemma play_notes_tone:
  assumes "bank \<noteq> []"
  shows "play_notes (tone_state bank jumps 0 [])
           = tone_state bank jumps (2304 * 0x01CD) (tone_samples bank 0 2304)"
proof -
  have n: "nat (uint (tempo (tone_state bank jumps 0 [])) * uint (i_duration (tone_state bank jumps 0 [])))
             = 2304"
    by (simp add: tone_state_def)
  from play_loop_tone [OF assms, of 2304 jumps 0 "[]" "[]"]
  obtain out' buf' where
    pl: "play_loop 2304 (tone_state bank jumps 0 []) []
           = (tone_state bank jumps (0 + word_of_nat 2304 * 0x01CD) out', buf')"
    and ob: "out' @ buf' = [] @ [] @ tone_samples bank 0 2304"
    by blast
  show ?thesis
    unfolding play_notes_def n pl
    using ob by (cases "buf' = []") (simp_all add: write_tone)
qed

lemma replicate_4: "replicate 4 x = [x, x, x, x]"
  by (simp add: numeral_eq_Suc)

lemma tone_at_end:
  "interpret_while (tone_state bank jumps ph out)
     = Some (0, (tone_state bank jumps ph out)\<lparr>code_ptr := 6\<rparr>)"
proof -
  have "process_pure_control_commands (tone_state bank jumps ph out)
          = Some (1, (tone_state bank jumps ph out)\<lparr>code_ptr := 6\<rparr>)"
    by (subst process_pure_control_commands.simps)
       (simp add: tone_state_def ni_code_size_def is_control_command_def
          is_long_note_command_def process_control_command_def)
  then show ?thesis
    by (subst interpret_while.simps) (simp add: tone_state_def ni_code_size_def)
qed

lemma activated_stops_at_note:
  "process_pure_control_commands
     ((tone_state bank jumps 0 [])
        \<lparr>i_voices := [(init_voice 0)\<lparr>v_duration := 0\<rparr>, init_voice 0, init_voice 0, init_voice 0],
         code_ptr := 2, i_duration := 0\<rparr>)
   = Some (0, (tone_state bank jumps 0 [])
        \<lparr>i_voices := [(init_voice 0)\<lparr>v_duration := 0\<rparr>, init_voice 0, init_voice 0, init_voice 0],
         code_ptr := 2, i_duration := 0\<rparr>)"
  by (subst process_pure_control_commands.simps)
     (simp add: tone_state_def ni_code_size_def is_control_command_def
        is_long_note_command_def)

lemma activate_command:
  "process_pure_control_commands
     ((tone_state bank jumps 0 [])
        \<lparr>i_voices := replicate MAX_VOICES (init_voice 0), code_ptr := 0, i_duration := 0\<rparr>)
   = Some (0, (tone_state bank jumps 0 [])
        \<lparr>i_voices := [(init_voice 0)\<lparr>v_duration := 0\<rparr>, init_voice 0, init_voice 0, init_voice 0],
         code_ptr := 2, i_duration := 0\<rparr>)"
proof -
  have step: "process_control_command
          ((tone_state bank jumps 0 [])
             \<lparr>i_voices := replicate MAX_VOICES (init_voice 0), code_ptr := 1, i_duration := 0\<rparr>)
          0x90
        = (0, (tone_state bank jumps 0 [])
             \<lparr>i_voices := [(init_voice 0)\<lparr>v_duration := 0\<rparr>, init_voice 0, init_voice 0, init_voice 0],
              code_ptr := 2, i_duration := 0\<rparr>)"
    by (simp add: process_control_command_def is_long_note_command_def
          handle_activate_command_def read_code_byte_def ni_code_size_def tone_state_def
          set_voice_def ni_activate_voice_def set_voice_silent_def init_voice_def replicate_4)
  show ?thesis
    by (subst process_pure_control_commands.simps)
       (use step activated_stops_at_note [of bank jumps] in
          \<open>simp add: tone_state_def ni_code_size_def is_control_command_def
             is_long_note_command_def\<close>)
qed

lemma note_assigned:
  assumes "bank \<noteq> []"
  shows "schedule_event
     ((tone_state bank jumps 0 [])
        \<lparr>i_voices := [(init_voice 0)\<lparr>v_duration := 0\<rparr>, init_voice 0, init_voice 0, init_voice 0],
         code_ptr := 2, i_duration := 0\<rparr>)
   = play_notes (tone_state bank jumps 0 [])"
proof -
  have nw: "\<not> 0 \<ge> int (length bank)" using assms by simp
  have "process_notes_for_voices
     ((tone_state bank jumps 0 [])
        \<lparr>i_voices := [(init_voice 0)\<lparr>v_duration := 0\<rparr>, init_voice 0, init_voice 0, init_voice 0],
         code_ptr := 2, i_duration := 0\<rparr>)
     = (tone_state bank jumps 0 [])\<lparr>i_duration := 0\<rparr>"
    using nw
    by (simp add: process_notes_for_voices_def upt_rec tone_state_def init_voice_def
          is_voice_active_def is_voice_expired_def ni_code_size_def read_code_byte_def
          is_long_note_command_def process_long_note_def num_wavetables_def Let_def
          set_voice_def assign_long_note_absolute_def update_voice_frequency_def
          get_frequency_increment_def FREQUENCY_TABLE_def DURATION_TABLE_def)
  moreover have "find_shortest_duration ((tone_state bank jumps 0 [])\<lparr>i_duration := 0\<rparr>) = 72"
    by (simp add: find_shortest_duration_def tone_state_def init_voice_def
          is_voice_active_def is_voice_expired_def)
  moreover have "(tone_state bank jumps 0 [])\<lparr>i_duration := 72\<rparr> = tone_state bank jumps 0 []"
    by (simp add: tone_state_def)
  ultimately show ?thesis
    by (simp add: schedule_event_def Let_def)
qed

lemma interpret_tone:
  assumes "bank \<noteq> []"
  shows "interpret_loop
     ((tone_state bank jumps 0 [])
        \<lparr>i_voices := replicate MAX_VOICES (init_voice 0), code_ptr := 0, i_duration := 0,
         tempo := 0\<rparr>)
   = Some (0, (tone_state bank jumps (2304 * 0x01CD) (tone_samples bank 0 2304))
                \<lparr>code_ptr := 6\<rparr>)"
proof -
  let ?s1 = "(tone_state bank jumps 0 [])
        \<lparr>i_voices := replicate MAX_VOICES (init_voice 0), code_ptr := 0, i_duration := 0\<rparr>"
  let ?s2 = "(tone_state bank jumps 0 [])
        \<lparr>i_voices := [(init_voice 0)\<lparr>v_duration := 0\<rparr>, init_voice 0, init_voice 0, init_voice 0],
         code_ptr := 2, i_duration := 0\<rparr>"
  have t: "(if tempo (?s1\<lparr>tempo := 0\<rparr>) = 0 then ?s1\<lparr>tempo := 0, tempo := 32\<rparr> else ?s1\<lparr>tempo := 0\<rparr>)
             = ?s1"
    by (simp add: tone_state_def)
  have "interpret_while ?s1 = interpret_while (schedule_event ?s2)"
    by (subst interpret_while.simps)
       (use activate_command [of bank jumps] in
          \<open>simp add: tone_state_def ni_code_size_def\<close>)
  also have "\<dots> = interpret_while (tone_state bank jumps (2304 * 0x01CD)
                                   (tone_samples bank 0 2304))"
    by (simp only: note_assigned [OF assms] play_notes_tone [OF assms])
  also have "\<dots> = Some (0, (tone_state bank jumps (2304 * 0x01CD) (tone_samples bank 0 2304))
                \<lparr>code_ptr := 6\<rparr>)"
    by (rule tone_at_end)
  finally show ?thesis
    unfolding interpret_loop_def t .
qed

text \<open>
  Claim C2. For every wavetable bank with at least table 0 and every jump budget,
  interpreting the byte program \<open>90 00 60 18 04 00\<close> from the state of
  \<open>init_interpreter\<close> (tempo unset, hence the default 32) returns with the success
  result 0 after the END command, which is the last byte of the code, and has
  written exactly 32 * 72 = 2304 samples. Sample \<open>k\<close> is the value of wavetable 0 at
  the high byte of the 16-bit phase \<open>k * FREQUENCY_TABLE[12]\<close>, that is of a phase
  accumulator that starts at 0 and advances by \<open>FREQUENCY_TABLE[12]\<close> per sample; it
  lies in 0..255.
\<close>

theorem render_c4_half_note:
  assumes "bank \<noteq> []"
  shows "\<exists>st0 st'.
           init_interpreter [0x90, 0x00, 0x60, 0x18, 0x04, 0x00] bank jumps = Some st0
         \<and> interpret_loop st0 = Some (0, st')
         \<and> code_ptr st' = ni_code_size st'
         \<and> object_code st' ! (code_ptr st' - 1) = CMD_END
         \<and> length (pcm_out st') = 32 * 72
         \<and> (\<forall>k < 32 * 72.
               pcm_out st' ! k
                 = (bank ! 0) (ucast (drop_bit 8 (word_of_nat k * FREQUENCY_TABLE ! 12 :: 16 word)))
               \<and> unat (pcm_out st' ! k) \<le> 255)"
proof -
  let ?st0 = "(tone_state bank jumps 0 [])
        \<lparr>i_voices := replicate MAX_VOICES (init_voice 0), code_ptr := 0, i_duration := 0,
         tempo := 0\<rparr>"
  let ?st' = "(tone_state bank jumps (2304 * 0x01CD) (tone_samples bank 0 2304))
                \<lparr>code_ptr := 6\<rparr>"
  have i: "init_interpreter [0x90, 0x00, 0x60, 0x18, 0x04, 0x00] bank jumps = Some ?st0"
    using assms by (simp add: init_interpreter_def tone_state_def replicate_4)
  have f: "FREQUENCY_TABLE ! 12 = 0x01CD"
    by (simp add: FREQUENCY_TABLE_def)
  have out: "pcm_out ?st' = tone_samples bank 0 2304"
    by (simp add: tone_state_def)
  have b: "unat (w :: 8 word) \<le> 255" for w
    using unat8_lt [of w] by simp
  have "code_ptr ?st' = ni_code_size ?st'"
       "object_code ?st' ! (code_ptr ?st' - 1) = CMD_END"
       "length (pcm_out ?st') = 32 * 72"
       "\<forall>k < 32 * 72.
               pcm_out ?st' ! k
                 = (bank ! 0) (ucast (drop_bit 8 (word_of_nat k * FREQUENCY_TABLE ! 12 :: 16 word)))
               \<and> unat (pcm_out ?st' ! k) \<le> 255"
    unfolding out f
    by (simp_all add: tone_state_def ni_code_size_def tone_samples_def b)
  with i interpret_tone [OF assms, of jumps] show ?thesis
    by blast
qed

theorem render_c4_half_note_witness:
  "[\<lambda>x. x] \<noteq> ([] :: (8 word \<Rightarrow> 8 word) list)
   \<and> (\<exists>st0 st'.
          init_interpreter [0x90, 0x00, 0x60, 0x18, 0x04, 0x00] [\<lambda>x. x] 5 = Some st0
        \<and> interpret_loop st0 = Some (0, st')
        \<and> length (pcm_out st') = 2304
        \<and> pcm_out st' ! 0 = 0 \<and> pcm_out st' ! 1 = 1 \<and> pcm_out st' ! 2 = 3
        \<and> pcm_out st' ! 2303 = 51)"
proof -
  from render_c4_half_note [of "[\<lambda>x. x]" 5]
  obtain st0 st' where
    i: "init_interpreter [0x90, 0x00, 0x60, 0x18, 0x04, 0x00] [\<lambda>x. x] 5 = Some st0"
    and r: "interpret_loop st0 = Some (0, st')"
    and l: "length (pcm_out st') = 32 * 72"
    and s: "\<forall>k < 32 * 72.
               pcm_out st' ! k
                 = ([\<lambda>x. x] ! 0) (ucast (drop_bit 8 (word_of_nat k * FREQUENCY_TABLE ! 12 :: 16 word)))
               \<and> unat (pcm_out st' ! k) \<le> 255"
    by auto
  have f: "FREQUENCY_TABLE ! 12 = 0x01CD"
    by (simp add: FREQUENCY_TABLE_def)
  have "pcm_out st' ! 0 = 0" "pcm_out st' ! 1 = 1" "pcm_out st' ! 2 = 3" "pcm_out st' ! 2303 = 51"
    using s by (simp_all add: f)
  with i r l show ?thesis
    by auto
qed

subsection \<open>PAP and Intel HEX output\<close>

lemma unat_and_FF: "unat ((w :: 16 word) AND 0xFF) = unat w mod 256"
  by (simp add: and_FF unat_mod take_bit_eq_mod)

lemma unat_high_byte: "unat (drop_bit 8 (w :: 16 word) AND 0xFF) = unat w div 256"
proof -
  have "unat w div 256 < 256" using unat16_lt [of w] by simp
  then show ?thesis
    by (simp add: unat_and_FF unat_drop_bit_eq drop_bit_eq_div unat_div)
qed

lemma unat_checksum_fold:
  "unat (foldl (\<lambda>checksum b. checksum + ucast b) (a :: 16 word) (data :: 8 word list))
     = (unat a + sum_list (map unat data)) mod 65536"
proof (induction data arbitrary: a)
  case Nil
  then show ?case using unat16_lt [of a] by simp
next
  case (Cons b data)
  have "unat (a + ucast b) = (unat a + unat b) mod 65536"
    by (simp add: unat_word_ariths unat_ucast_8_16)
  then show ?case
    by (simp add: Cons.IH mod_add_left_eq add.assoc)
qed

lemma unat_calculate_checksum:
  "unat (calculate_checksum addr data) = record_sum (unat addr) data mod 65536"
proof -
  have hi: "unat addr div 256 mod 256 = unat addr div 256"
    using unat16_lt [of addr] by simp
  define h where "h = drop_bit 8 addr AND 0xFF"
  define l where "l = addr AND 0xFF"
  have uh: "unat h = unat addr div 256" unfolding h_def by (rule unat_high_byte)
  have ul: "unat l = unat addr mod 256" unfolding l_def by (rule unat_and_FF)
  have "unat (word_of_nat (length data) + h + l :: 16 word)
          = (length data + unat addr div 256 + unat addr mod 256) mod 65536"
    by (simp add: unat_word_ariths unat_of_nat uh ul mod_simps)
  then show ?thesis
    unfolding calculate_checksum_def h_def [symmetric] l_def [symmetric]
    by (simp add: unat_checksum_fold record_sum_def hi mod_simps add.assoc)
qed

lemma pap_record_eq:
  "write_pap_record addr data (calculate_checksum addr data) = pap_record (unat addr) data"
  by (simp add: write_pap_record_def pap_record_def write_hex_bytes_def unat_calculate_checksum)

lemma unat_twos_complement:
  "unat (word_of_int (NOT (uint (cs :: 16 word)) + 1) :: 8 word) = (256 - unat cs mod 256) mod 256"
proof -
  have n: "NOT (uint cs) + 1 = - uint cs" by (simp add: not_int_def)
  have u: "unat (word_of_int (- uint cs) :: 8 word) = nat ((- uint cs) mod 256)"
    unfolding unsigned_of_int by (simp add: take_bit_eq_mod)
  have m: "uint cs mod 256 = int (unat cs mod 256)"
    by (simp add: zmod_int)
  show ?thesis
  proof (cases "unat cs mod 256 = 0")
    case True
    then show ?thesis
      unfolding n u by (simp add: zmod_zminus1_eq_if m)
  next
    case False
    have lt: "unat cs mod 256 < 256" by simp
    have "(- uint cs) mod 256 = 256 - int (unat cs mod 256)"
      using False by (simp add: zmod_zminus1_eq_if m)
    then have "nat ((- uint cs) mod 256) = 256 - unat cs mod 256"
      using lt by linarith
    moreover have "(256 - unat cs mod 256) mod 256 = 256 - unat cs mod 256"
      using False by simp
    ultimately show ?thesis
      unfolding n u by simp
  qed
qed


lemma intel_record_eq:
  "write_intel_record addr data (calculate_checksum addr data) = ihex_record (unat addr) data"
proof -
  have "unat (calculate_checksum addr data) mod 256 = record_sum (unat addr) data mod 256"
    unfolding unat_calculate_checksum
    by (simp add: mod_mod_cancel)
  then show ?thesis
    unfolding write_intel_record_def ihex_record_def write_hex_bytes_def unat_twos_complement
    by simp
qed

lemma pap_trailer_eq:
  assumes "n < 65536"
  shows "write_pap_trailer (word_of_nat n) = pap_trailer n"
proof -
  have u: "unat (word_of_nat n :: 16 word) = n"
    using assms by (simp add: unat_of_nat)
  define h where "h = drop_bit 8 (word_of_nat n :: 16 word) AND 0xFF"
  define l where "l = (word_of_nat n :: 16 word) AND 0xFF"
  have uh: "unat h = n div 256" unfolding h_def using unat_high_byte [of "word_of_nat n"] u by simp
  have ul: "unat l = n mod 256" unfolding l_def using unat_and_FF [of "word_of_nat n"] u by simp
  have "n div 256 + n mod 256 < 65536" using assms by simp
  then have "unat (h + l) = n div 256 + n mod 256"
    by (simp add: unat_word_ariths uh ul)
  then show ?thesis
    unfolding write_pap_trailer_def pap_trailer_def h_def [symmetric] l_def [symmetric] u
    by simp
qed

lemma chunks_Nil [simp]: "chunks n [] = []"
  by (simp add: chunks.simps)

lemma chunks_Cons:
  "xs \<noteq> [] \<Longrightarrow> 0 < n \<Longrightarrow> chunks n xs = take n xs # chunks n (drop n xs)"
  by (subst chunks.simps) simp

lemma chunks_props:
  "0 < n \<Longrightarrow> (\<forall>d \<in> set (chunks n xs). d \<noteq> [] \<and> length d \<le> n)
               \<and> concat (chunks n xs) = xs
               \<and> length (chunks n xs) \<le> length xs"
proof (induction n xs rule: chunks.induct)
  case (1 n xs)
  show ?case
  proof (cases "xs = []")
    case True
    then show ?thesis by simp
  next
    case False
    with "1.prems" have ih: "(\<forall>d \<in> set (chunks n (drop n xs)). d \<noteq> [] \<and> length d \<le> n)
               \<and> concat (chunks n (drop n xs)) = drop n xs
               \<and> length (chunks n (drop n xs)) \<le> length (drop n xs)"
      by (intro "1.IH") simp_all
    have "length xs > 0" using False by simp
    with "1.prems" have "Suc (length xs - n) \<le> length xs" by linarith
    with ih False "1.prems" show ?thesis
      unfolding chunks_Cons [OF False "1.prems"]
      by simp
  qed
qed


lemma take_drop_min:
  "take (min n (length xs)) xs = take n xs" "drop (min n (length xs)) xs = drop n xs"
  by (simp_all add: min_def)

lemma bytes_per_line_values:
  "bytes_per_line True = 24" "bytes_per_line False = 32"
  by (simp_all add: bytes_per_line_def)

lemma write_hex_lines_Nil:
  "write_hex_lines p [] addr lc = (if p then write_pap_trailer lc else write_intel_eof)"
  by (subst write_hex_lines.simps) simp

lemma write_hex_lines_step:
  assumes "data \<noteq> []"
  shows "write_hex_lines p data addr lc
           = (if p then pap_record else ihex_record) (unat addr) (take (bytes_per_line p) data)
             @ write_hex_lines p (drop (bytes_per_line p) data)
                 (addr + word_of_nat (min (bytes_per_line p) (length data))) (lc + 1)"
proof -
  have "write_hex_lines p data addr lc
          = (if p
             then write_pap_record addr (take (bytes_per_line p) data)
                    (calculate_checksum addr (take (bytes_per_line p) data))
             else write_intel_record addr (take (bytes_per_line p) data)
                    (calculate_checksum addr (take (bytes_per_line p) data)))
            @ write_hex_lines p (drop (bytes_per_line p) data)
                (addr + word_of_nat (min (bytes_per_line p) (length data))) (lc + 1)"
    using assms
    by (subst write_hex_lines.simps)
       (simp only: take_drop_min length_greater_0_conv simp_thms if_True)
  then show ?thesis
    by (cases p) (simp_all only: pap_record_eq intel_record_eq if_True if_False)
qed

lemma write_hex_lines_chunks:
  "write_hex_lines p data addr lc =
     concat (map (\<lambda>(i, d). (if p then pap_record else ihex_record)
                               (unat (addr + word_of_nat (bytes_per_line p * i))) d)
               (enumerate 0 (chunks (bytes_per_line p) data)))
     @ (if p then write_pap_trailer (lc + word_of_nat (length (chunks (bytes_per_line p) data)))
        else write_intel_eof)"
proof (induction p data addr lc rule: write_hex_lines.induct)
  case (1 p data addr lc)
  define n where "n = bytes_per_line p"
  have npos: "0 < n" by (simp add: n_def bytes_per_line_def)
  define R where "R = (if p then pap_record else ihex_record)"
  show ?case
  proof (cases "data = []")
    case True
    then show ?thesis
      by (simp add: write_hex_lines_Nil)
  next
    case False
    define cs where "cs = chunks n (drop n data)"
    define m where "m = min n (length data)"
    have pos: "0 < length data" using False by simp
    have ch: "chunks n data = take n data # cs"
      unfolding cs_def by (rule chunks_Cons [OF False npos])
    have ih: "write_hex_lines p (drop n data) (addr + word_of_nat m) (lc + 1) =
        concat (map (\<lambda>(i, d). R (unat (addr + word_of_nat m + word_of_nat (n * i))) d)
                  (enumerate 0 cs))
        @ (if p then write_pap_trailer (lc + 1 + word_of_nat (length cs)) else write_intel_eof)"
      using "1.IH" [OF pos]
      unfolding n_def m_def R_def cs_def take_drop_min .
    have step: "write_hex_lines p data addr lc
        = R (unat addr) (take n data)
          @ write_hex_lines p (drop n data) (addr + word_of_nat m) (lc + 1)"
      unfolding n_def m_def R_def by (rule write_hex_lines_step [OF False])
    have shift: "map (\<lambda>(i, d). R (unat (addr + word_of_nat (n * i))) d) (enumerate (Suc 0) cs)
               = map (\<lambda>(i, d). R (unat (addr + word_of_nat m + word_of_nat (n * i))) d)
                   (enumerate 0 cs)"
    proof (cases "cs = []")
      case True
      then show ?thesis by simp
    next
      case nonempty: False
      then have "drop n data \<noteq> []" unfolding cs_def by auto
      then have mn: "m = n" unfolding m_def by simp
      have "(addr + word_of_nat (n * Suc i) :: 16 word)
              = addr + word_of_nat n + word_of_nat (n * i)" for i
        by (simp add: algebra_simps)
      then show ?thesis
        unfolding mn enumerate_Suc_eq [of 0]
        by (simp add: comp_def case_prod_beta add.assoc
              del: of_nat_mult of_nat_Suc mult_Suc_right)
    qed
    have tr: "lc + 1 + word_of_nat (length cs) = lc + word_of_nat (length (take n data # cs))"
      by simp
    have first: "(addr + word_of_nat (n * 0) :: 16 word) = addr" by simp
    have "write_hex_lines p data addr lc
        = concat (map (\<lambda>(i, d). R (unat (addr + word_of_nat (n * i))) d)
                    (enumerate 0 (take n data # cs)))
          @ (if p then write_pap_trailer (lc + word_of_nat (length (take n data # cs)))
             else write_intel_eof)"
      unfolding step ih tr
      by (simp only: enumerate_simps list.map concat.simps case_prod_conv first shift
            append_assoc)
    then show ?thesis
      unfolding n_def R_def ch [unfolded n_def] .
  qed
qed

text \<open>
  Claim C8. For every non-empty code image (at most \<open>MAX_CODE_SIZE\<close> bytes) and every
  base address, the PAP output is the sequence of the PAP records of the pieces of 24
  bytes of the image, each with at least one and at most 24 data bytes and with the
  checksum field (byte count + address high byte + address low byte + sum of the data
  bytes) modulo 65536, followed by the trailer \<open>;00LLLLCCCC\<close> for the number of data
  records; and the Intel HEX output is the sequence of the records of the pieces of
  32 bytes, each with at most 32 data bytes and with the 8-bit two's complement of
  the same sum as its checksum, followed by exactly the line \<open>:00000001FF\<close>. The
  pieces, put together, are the image.
\<close>

theorem hex_output_records:
  assumes "data \<noteq> []" and "length data \<le> MAX_CODE_SIZE"
  shows "objfile_write OUT_PAP data base_addr
           = hex_records pap_record 24 base_addr data @ pap_trailer (length (chunks 24 data))
       \<and> objfile_write OUT_IHEX data base_addr
           = hex_records ihex_record 32 base_addr data @ '':00000001FF'' @ [CHR 0x0A]
       \<and> (\<forall>d \<in> set (chunks 24 data). d \<noteq> [] \<and> length d \<le> 24)
       \<and> concat (chunks 24 data) = data
       \<and> (\<forall>d \<in> set (chunks 32 data). d \<noteq> [] \<and> length d \<le> 32)
       \<and> concat (chunks 32 data) = data"
proof -
  have ua: "unat (base_addr + word_of_nat (c * i)) = (unat base_addr + c * i) mod 65536" for c i
    by (simp add: unat_word_ariths unat_of_nat mod_simps del: of_nat_mult)
  have c24: "(\<forall>d \<in> set (chunks 24 data). d \<noteq> [] \<and> length d \<le> 24)
               \<and> concat (chunks 24 data) = data
               \<and> length (chunks 24 data) \<le> length data"
    by (rule chunks_props) simp
  have c32: "(\<forall>d \<in> set (chunks 32 data). d \<noteq> [] \<and> length d \<le> 32)
               \<and> concat (chunks 32 data) = data
               \<and> length (chunks 32 data) \<le> length data"
    by (rule chunks_props) simp
  have k: "length (chunks 24 data) < 65536"
    using c24 assms(2) by simp
  have wp: "objfile_write OUT_PAP data base_addr = write_hex_lines True data base_addr 0"
    using assms(1) by (simp add: objfile_write_def write_hex_format_def)
  have wi: "objfile_write OUT_IHEX data base_addr = write_hex_lines False data base_addr 0"
    using assms(1) by (simp add: objfile_write_def write_hex_format_def)
  have pap: "objfile_write OUT_PAP data base_addr
           = hex_records pap_record 24 base_addr data @ pap_trailer (length (chunks 24 data))"
    unfolding wp write_hex_lines_chunks bytes_per_line_values ua hex_records_def
    by (simp add: pap_trailer_eq [OF k])
  have ihex: "objfile_write OUT_IHEX data base_addr
           = hex_records ihex_record 32 base_addr data @ '':00000001FF'' @ [CHR 0x0A]"
    unfolding wi write_hex_lines_chunks bytes_per_line_values ua hex_records_def
    by (simp add: write_intel_eof_def)
  show ?thesis
    using pap ihex c24 c32 by simp
qed

lemma replicate_small:
  "replicate 2 x = [x, x]" "replicate 3 x = [x, x, x]"
  by (simp_all add: numeral_eq_Suc)

theorem hex_output_records_witness:
  "[0x10, 0x20, 0x90, 0x00, 0x60, 0x4A, 0x06, 0x26, 0x00] \<noteq> ([] :: 8 word list)
   \<and> length [0x10, 0x20, 0x90, 0x00, 0x60, 0x4A, 0x06, 0x26, 0x00 :: 8 word] \<le> MAX_CODE_SIZE
   \<and> objfile_write OUT_PAP [0x10, 0x20, 0x90, 0x00, 0x60, 0x4A, 0x06, 0x26, 0x00] 0x0200
       = '';09020010209000604A06260001A1'' @ [CHR 0x0A] @ '';0000010001'' @ [CHR 0x0A]
   \<and> objfile_write OUT_IHEX [0x10, 0x20, 0x90, 0x00, 0x60, 0x4A, 0x06, 0x26, 0x00] 0x0200
       = '':0902000010209000604A0626005F'' @ [CHR 0x0A] @ '':00000001FF'' @ [CHR 0x0A]"
proof -
  let ?d = "[0x10, 0x20, 0x90, 0x00, 0x60, 0x4A, 0x06, 0x26, 0x00] :: 8 word list"
  have c24: "chunks 24 ?d = [?d]" and c32: "chunks 32 ?d = [?d]"
    by (simp_all add: chunks.simps)
  have hp: "hex_records pap_record 24 0x0200 ?d = pap_record 512 ?d"
    and hi: "hex_records ihex_record 32 0x0200 ?d = ihex_record 512 ?d"
    by (simp_all add: hex_records_def c24 c32)
  have rp: "pap_record 512 ?d = '';09020010209000604A06260001A1'' @ [CHR 0x0A]"
    by (simp add: pap_record_def record_sum_def printf_X_def to_hex.simps hex_digit_def)
  have ri: "ihex_record 512 ?d = '':0902000010209000604A0626005F'' @ [CHR 0x0A]"
    by (simp add: ihex_record_def record_sum_def printf_X_def to_hex.simps hex_digit_def)
  have tr: "pap_trailer (length (chunks 24 ?d)) = '';0000010001'' @ [CHR 0x0A]"
    by (simp add: c24 pap_trailer_def printf_X_def to_hex.simps hex_digit_def replicate_small)
  show ?thesis
    using hex_output_records [of ?d "0x0200"]
    unfolding hp hi rp ri tr
    by simp
qed

end
